theory Spec2Isabelle
  imports Main "HOL-Library.AList"
begin

section \<open>Python values, dictionaries and errors\<close>

text \<open>
  The services pass around JSON-shaped Python data: findings, knowledge-base entries and
  scan records are dictionaries with string keys, holding strings, integers, booleans,
  \<open>None\<close>, lists and further dictionaries. A dictionary is an association list in
  insertion order; the dictionaries of the program are built by Python or by
  \<open>json.load\<close>, so their keys are distinct. Floating-point values are not part of the
  model.
\<close>

datatype pyval =
    PNone
  | PBool bool
  | PInt int
  | PStr string
  | PList "pyval list"
  | PDict "(string \<times> pyval) list"

type_synonym pydict = "(string \<times> pyval) list"

type_synonym finding = pydict

text \<open>
  Exceptions are values. \<open>Failed prefix e\<close> is the generic
  \<open>Exception(f"<prefix>{str(e)}")\<close> that the services raise from their
  \<open>except Exception as e\<close> handlers: its message is the prefix followed by the message
  of the exception it wraps.
\<close>

datatype error =
    AttributeError
  | TypeError
  | JSONDecodeError
  | UnicodeDecodeError
  | ValueError string
  | FileNotFoundError string
  | NoSuchFileOrDirectory string
  | IndexError
  | NotADirectoryError
  | IsADirectoryError
  | FileExistsError
  | ExternalError string
  | Failed string error

text \<open>
  \<open>FileNotFoundError\<close> with a message is the exception that the services raise
  themselves; \<open>NoSuchFileOrDirectory\<close>, \<open>NotADirectoryError\<close>,
  \<open>IsADirectoryError\<close> and \<open>FileExistsError\<close> are raised by the operating system
  when a file is opened or a directory is made.
\<close>

text \<open>\<open>d.get(k)\<close> and \<open>d.get(k, default)\<close> on a dictionary.\<close>

definition dict_get_default :: "pydict \<Rightarrow> string \<Rightarrow> pyval \<Rightarrow> pyval" where
  "dict_get_default d k dflt = (case map_of d k of None \<Rightarrow> dflt | Some v \<Rightarrow> v)"

definition dict_get :: "pydict \<Rightarrow> string \<Rightarrow> pyval" where
  "dict_get d k = dict_get_default d k PNone"

text \<open>
  \<open>{**a, **b}\<close>: the items of \<open>a\<close>, then the items of \<open>b\<close> stored one after the
  other; storing under a key that is already there replaces the value in place, a new key
  goes to the end.
\<close>

definition dict_merge :: "pydict \<Rightarrow> pydict \<Rightarrow> pydict" where
  "dict_merge a b = fold (\<lambda>(k, v). AList.update k v) b a"

text \<open>Lists and dictionaries are unhashable: using one as a dictionary key raises TypeError.\<close>

fun hashable :: "pyval \<Rightarrow> bool" where
  "hashable (PList _) = False"
| "hashable (PDict _) = False"
| "hashable _ = True"

section \<open>The file system\<close>

text \<open>
  The services read and write files under \<open>DATA_DIR\<close> and \<open>TEMPLATES_DIR\<close>. A file
  holds text, a Word document (its blocks, see below), or a JSON object that is known by
  its value whatever its layout (a hand-written knowledge base, say). The file system is a
  map from the canonical paths of the files to their contents, with the set of the
  canonical paths of the directories.
\<close>

datatype block = Heading string nat | Paragraph string

datatype content = JsonObject pydict | Text string | Docx "block list"

record filesystem =
  files :: "string \<rightharpoonup> content"
  dirs :: "string set"

text \<open>\<open>os.path.join(a, b)\<close> on POSIX.\<close>

definition path_join :: "string \<Rightarrow> string \<Rightarrow> string" where
  "path_join a b =
     (if b \<noteq> [] \<and> hd b = CHR ''/'' then b
      else if a = [] \<or> last a = CHR ''/'' then a @ b
      else a @ ''/'' @ b)"

text \<open>
  Three functions of the Python library are parameters of the model: the text that
  \<open>json.dump\<close> and \<open>json.dumps\<close> write for an object (with \<open>indent=2\<close>), the
  parser behind \<open>json.load\<close>, and the text that \<open>str\<close> gives for a list or a
  dictionary.
\<close>

record pylib =
  json_dumps :: "pydict \<Rightarrow> string"
  json_loads :: "string \<Rightarrow> error + pyval"
  py_repr :: "pyval \<Rightarrow> string"

text \<open>
  \<open>json.load(f)\<close>: the text of the file goes through the parser of the library; a
  Word document is a binary archive and does not decode as text.
\<close>

fun json_load :: "pylib \<Rightarrow> content \<Rightarrow> error + pyval" where
  "json_load lib (JsonObject d) = Inr (PDict d)"
| "json_load lib (Text s) = json_loads lib s"
| "json_load lib (Docx _) = Inl UnicodeDecodeError"

section \<open>Python strings\<close>

text \<open>
  A string is the list of its characters. \<open>str.strip()\<close> removes the characters for
  which \<open>str.isspace\<close> holds: tab, line feed, vertical tab, form feed, carriage return,
  the separators 28 to 31, the space, and (beyond ASCII) the next-line and no-break-space
  characters.
\<close>

definition newline :: char where
  "newline = CHR 0x0A"

definition is_space :: "char \<Rightarrow> bool" where
  "is_space c =
     (let n = (of_char c :: nat)
      in (9 \<le> n \<and> n \<le> 13) \<or> (28 \<le> n \<and> n \<le> 32) \<or> n = 133 \<or> n = 160)"

definition strip_with :: "(char \<Rightarrow> bool) \<Rightarrow> string \<Rightarrow> string" where
  "strip_with p s = rev (dropWhile p (rev (dropWhile p s)))"

text \<open>\<open>s.strip()\<close> and \<open>s.strip('#')\<close>\<close>

definition py_strip :: "string \<Rightarrow> string" where
  "py_strip s = strip_with is_space s"

definition strip_char :: "char \<Rightarrow> string \<Rightarrow> string" where
  "strip_char c s = strip_with (\<lambda>x. x = c) s"

text \<open>\<open>s.count(c)\<close> for a one-character \<open>c\<close>, and \<open>s.startswith(p)\<close>\<close>

definition count_char :: "char \<Rightarrow> string \<Rightarrow> nat" where
  "count_char c s = length (filter (\<lambda>x. x = c) s)"

definition startswith :: "string \<Rightarrow> string \<Rightarrow> bool" where
  "startswith s p = (take (length p) s = p)"

text \<open>
  \<open>content.split('\n\n')\<close>: the separator is searched from the left, without overlap;
  \<open>cur\<close> holds the characters of the piece being read.
\<close>

fun split_blank_lines :: "string \<Rightarrow> string \<Rightarrow> string list" where
  "split_blank_lines cur [] = [cur]"
| "split_blank_lines cur [a] = [cur @ [a]]"
| "split_blank_lines cur (a # b # rest) =
     (if a = newline \<and> b = newline then cur # split_blank_lines [] rest
      else split_blank_lines (cur @ [a]) (b # rest))"

text \<open>\<open>s.replace('_', ' ')\<close>\<close>

definition replace_underscores :: "string \<Rightarrow> string" where
  "replace_underscores s = map (\<lambda>c. if c = CHR ''_'' then CHR '' '' else c) s"

text \<open>
  \<open>s.title()\<close>: a cased character is upper-cased when the character before it is not
  cased, and lower-cased otherwise. The cased characters of the model are the ASCII
  letters, which covers the report types and templates of the program.
\<close>

definition is_lower :: "char \<Rightarrow> bool" where
  "is_lower c = (97 \<le> (of_char c :: nat) \<and> (of_char c :: nat) \<le> 122)"

definition is_upper :: "char \<Rightarrow> bool" where
  "is_upper c = (65 \<le> (of_char c :: nat) \<and> (of_char c :: nat) \<le> 90)"

definition to_upper :: "char \<Rightarrow> char" where
  "to_upper c = (if is_lower c then char_of ((of_char c :: nat) - 32) else c)"

definition to_lower :: "char \<Rightarrow> char" where
  "to_lower c = (if is_upper c then char_of ((of_char c :: nat) + 32) else c)"

fun title_from :: "bool \<Rightarrow> string \<Rightarrow> string" where
  "title_from previous_is_cased [] = []"
| "title_from previous_is_cased (c # cs) =
     (if is_lower c \<or> is_upper c
      then (if previous_is_cased then to_lower c else to_upper c) # title_from True cs
      else c # title_from False cs)"

definition py_title :: "string \<Rightarrow> string" where
  "py_title s = title_from False s"

text \<open>\<open>sep.join(parts)\<close> on strings\<close>

fun join_strings :: "string \<Rightarrow> string list \<Rightarrow> string" where
  "join_strings sep [] = []"
| "join_strings sep [x] = x"
| "join_strings sep (x # y # rest) = x @ sep @ join_strings sep (y # rest)"

text \<open>\<open>str(n)\<close> for an integer: decimal digits, with a minus sign when negative.\<close>

function str_nat :: "nat \<Rightarrow> string" where
  "str_nat n =
     (if n < 10 then [char_of (48 + n)]
      else str_nat (n div 10) @ [char_of (48 + n mod 10)])"
  by pat_completeness auto
termination
  by (relation "measure id") auto

declare str_nat.simps [simp del]

definition str_int :: "int \<Rightarrow> string" where
  "str_int i = (if i < 0 then CHR ''-'' # str_nat (nat (- i)) else str_nat (nat i))"

section \<open>Python values in conditions and format strings\<close>

text \<open>The truth value of an object, and \<open>a or b\<close>.\<close>

fun truthy :: "pyval \<Rightarrow> bool" where
  "truthy PNone = False"
| "truthy (PBool b) = b"
| "truthy (PInt i) = (i \<noteq> 0)"
| "truthy (PStr s) = (s \<noteq> [])"
| "truthy (PList l) = (l \<noteq> [])"
| "truthy (PDict d) = (d \<noteq> [])"

definition py_or :: "pyval \<Rightarrow> pyval \<Rightarrow> pyval" where
  "py_or a b = (if truthy a then a else b)"

text \<open>\<open>f"{v}"\<close>\<close>

fun py_str :: "pylib \<Rightarrow> pyval \<Rightarrow> string" where
  "py_str lib PNone = ''None''"
| "py_str lib (PBool b) = (if b then ''True'' else ''False'')"
| "py_str lib (PInt i) = str_int i"
| "py_str lib (PStr s) = s"
| "py_str lib v = py_repr lib v"

text \<open>
  \<open>v.get(...)\<close> and \<open>v.items()\<close> need a dictionary, \<open>v.strip()\<close> needs a string:
  on any other value the attribute lookup raises AttributeError.
\<close>

fun as_dict :: "pyval \<Rightarrow> error + pydict" where
  "as_dict (PDict d) = Inr d"
| "as_dict _ = Inl AttributeError"

fun as_str :: "pyval \<Rightarrow> error + string" where
  "as_str (PStr s) = Inr s"
| "as_str _ = Inl AttributeError"

text \<open>\<open>len(v)\<close>\<close>

fun py_len :: "pyval \<Rightarrow> error + nat" where
  "py_len (PStr s) = Inr (length s)"
| "py_len (PList l) = Inr (length l)"
| "py_len (PDict d) = Inr (length d)"
| "py_len _ = Inl TypeError"

text \<open>
  \<open>sep.join(v)\<close>: every item must be a string. A string is iterated by character and
  a dictionary by key; a value that is not iterable raises TypeError as well.
\<close>

fun str_items :: "pyval list \<Rightarrow> error + string list" where
  "str_items [] = Inr []"
| "str_items (PStr s # rest) =
     (case str_items rest of Inl e \<Rightarrow> Inl e | Inr ss \<Rightarrow> Inr (s # ss))"
| "str_items (_ # rest) = Inl TypeError"

definition py_join :: "string \<Rightarrow> pyval list \<Rightarrow> error + string" where
  "py_join sep parts =
     (case str_items parts of Inl e \<Rightarrow> Inl e | Inr ss \<Rightarrow> Inr (join_strings sep ss))"

fun py_join_iterable :: "string \<Rightarrow> pyval \<Rightarrow> error + string" where
  "py_join_iterable sep (PList l) = py_join sep l"
| "py_join_iterable sep (PStr s) = Inr (join_strings sep (map (\<lambda>c. [c]) s))"
| "py_join_iterable sep (PDict d) = Inr (join_strings sep (map fst d))"
| "py_join_iterable sep _ = Inl TypeError"

text \<open>Sequencing of steps that may raise: the first exception ends the computation.\<close>

definition bind_result :: "error + 'a \<Rightarrow> ('a \<Rightarrow> error + 'b) \<Rightarrow> error + 'b" where
  "bind_result r f = (case r of Inl e \<Rightarrow> Inl e | Inr x \<Rightarrow> f x)"

section \<open>Paths and file access\<close>

text \<open>
  How the operating system finds the file a path names. The path is split at the
  slashes and followed name by name from the root (for an absolute path) or from the
  working directory: an empty name and \<open>.\<close> stay where they are, \<open>..\<close> goes up, any
  other name goes down. Every name is looked up in a directory, so all the places passed
  on the way must be directories. Names are compared exactly, as on a case-sensitive file
  system, and symbolic links are not modelled.
\<close>

fun split_path :: "string \<Rightarrow> string \<Rightarrow> string list" where
  "split_path cur [] = [cur]"
| "split_path cur (c # cs) =
     (if c = CHR ''/'' then cur # split_path [] cs else split_path (cur @ [c]) cs)"

text \<open>
  A place is a directory path from the root or from the working directory, which may
  start with steps \<open>..\<close> above the working directory.
\<close>

type_synonym place = "bool \<times> string list"

fun follow :: "place \<Rightarrow> string \<Rightarrow> place" where
  "follow (rooted, names) c =
     (if c = [] \<or> c = ''.'' then (rooted, names)
      else if c = ''..'' then
        (if names = [] then (if rooted then (rooted, []) else (rooted, [''..'']))
         else if last names = ''..'' then (rooted, names @ [''..''])
         else (rooted, butlast names))
      else (rooted, names @ [c]))"

fun places :: "place \<Rightarrow> string list \<Rightarrow> place list" where
  "places at [] = [at]"
| "places at (c # cs) = at # places (follow at c) cs"

definition path_places :: "string \<Rightarrow> place list" where
  "path_places p = places (startswith p ''/'', []) (split_path [] p)"

definition locate :: "string \<Rightarrow> place" where
  "locate p = last (path_places p)"

definition canonical :: "place \<Rightarrow> string" where
  "canonical at = (if fst at then ''/'' else []) @ join_strings ''/'' (snd at)"

text \<open>
  The root, the working directory and the directories above it exist; other directories
  and the files are those of the file system.
\<close>

definition is_dir :: "filesystem \<Rightarrow> place \<Rightarrow> bool" where
  "is_dir fs at = (snd at = [] \<or> last (snd at) = ''..'' \<or> canonical at \<in> dirs fs)"

definition is_file :: "filesystem \<Rightarrow> place \<Rightarrow> bool" where
  "is_file fs at = (files fs (canonical at) \<noteq> None)"

definition reachable :: "filesystem \<Rightarrow> string \<Rightarrow> bool" where
  "reachable fs p = list_all (is_dir fs) (butlast (path_places p))"

definition has_nul :: "string \<Rightarrow> bool" where
  "has_nul p = (CHR 0x00 \<in> set p)"

text \<open>\<open>os.path.exists(p)\<close>: true for a file and for a directory, false when the path
  cannot be followed.\<close>

definition os_path_exists :: "filesystem \<Rightarrow> string \<Rightarrow> bool" where
  "os_path_exists fs p =
     (\<not> has_nul p \<and> reachable fs p \<and> (is_file fs (locate p) \<or> is_dir fs (locate p)))"

text \<open>
  The error of opening a path that cannot be followed: a file on the way is not a
  directory, a missing directory is no such file or directory.
\<close>

definition lookup_failure :: "filesystem \<Rightarrow> string \<Rightarrow> error" where
  "lookup_failure fs p =
     (if list_ex (is_file fs) (butlast (path_places p)) then NotADirectoryError
      else NoSuchFileOrDirectory p)"

text \<open>\<open>open(p, 'r')\<close>\<close>

definition open_read :: "filesystem \<Rightarrow> string \<Rightarrow> error + content" where
  "open_read fs p =
     (if has_nul p then Inl (ValueError ''embedded null byte'')
      else if \<not> reachable fs p then Inl (lookup_failure fs p)
      else
        (case files fs (canonical (locate p)) of
           Some c \<Rightarrow> Inr c
         | None \<Rightarrow> if is_dir fs (locate p) then Inl IsADirectoryError
                   else Inl (NoSuchFileOrDirectory p)))"

text \<open>\<open>open(p, 'w')\<close> followed by writing the whole content.\<close>

definition open_write :: "filesystem \<Rightarrow> string \<Rightarrow> content \<Rightarrow> error + filesystem" where
  "open_write fs p c =
     (if has_nul p then Inl (ValueError ''embedded null byte'')
      else if \<not> reachable fs p then Inl (lookup_failure fs p)
      else if is_dir fs (locate p) then Inl IsADirectoryError
      else Inr (fs\<lparr>files := (files fs)(canonical (locate p) \<mapsto> c)\<rparr>))"

text \<open>
  \<open>os.makedirs(p, exist_ok=True)\<close>: every place on the way becomes a directory, unless
  one of them is a file.
\<close>

definition makedirs :: "filesystem \<Rightarrow> string \<Rightarrow> error + filesystem" where
  "makedirs fs p =
     (if has_nul p then Inl (ValueError ''embedded null byte'')
      else if list_ex (is_file fs) (butlast (path_places p)) then Inl NotADirectoryError
      else if is_file fs (locate p) then Inl FileExistsError
      else Inr (fs\<lparr>dirs := dirs fs \<union> canonical ` set (path_places p)\<rparr>))"

section \<open>AnalysisService: enrichment and summary\<close>

text \<open>
  \<open>keyword in findings_dict\<close> followed by \<open>findings_dict[keyword]\<close>: the keys of the
  loaded dictionary are strings, so only a string keyword can be found; an unhashable
  keyword raises.
\<close>

fun kb_lookup :: "pydict \<Rightarrow> pyval \<Rightarrow> error + pyval option" where
  "kb_lookup findings_dict (PStr s) = Inr (map_of findings_dict s)"
| "kb_lookup findings_dict (PList _) = Inl TypeError"
| "kb_lookup findings_dict (PDict _) = Inl TypeError"
| "kb_lookup findings_dict _ = Inr None"

text \<open>
  The body of the loop of \<open>_enrich_findings\<close> for one finding: the value appended to
  \<open>enriched\<close>. Unpacking \<open>**findings_dict[keyword]\<close> raises TypeError when the entry
  is not a mapping.
\<close>

definition enrich_one :: "pydict \<Rightarrow> finding \<Rightarrow> error + finding" where
  "enrich_one findings_dict finding =
     (let keyword = dict_get finding ''shortform_keyword'' in
      case kb_lookup findings_dict keyword of
        Inl e \<Rightarrow> Inl e
      | Inr (Some (PDict entry)) \<Rightarrow> Inr (dict_merge finding entry)
      | Inr (Some _) \<Rightarrow> Inl TypeError
      | Inr None \<Rightarrow> Inr finding)"

fun enrich_loop :: "pydict \<Rightarrow> finding list \<Rightarrow> finding list \<Rightarrow> error + finding list" where
  "enrich_loop findings_dict [] enriched = Inr enriched"
| "enrich_loop findings_dict (finding # rest) enriched =
     (case enrich_one findings_dict finding of
        Inl e \<Rightarrow> Inl e
      | Inr enriched_finding \<Rightarrow> enrich_loop findings_dict rest (enriched @ [enriched_finding]))"

text \<open>
  A file that parses need not hold an object, and the loop works on whatever was loaded.
  \<open>keyword in findings_dict\<close> on a list compares the elements with \<open>==\<close>
  (\<open>True\<close> equals \<open>1\<close>, lists are equal element by element, dictionaries key by
  key), on a string it is the substring test and needs a string keyword, on \<open>None\<close> or
  a number it raises TypeError. \<open>findings_dict[keyword]\<close> on a list needs an integer
  (negative ones count from the end, one out of range raises IndexError), on a string it
  raises TypeError for the string keyword that was found.
\<close>

fun py_eq :: "pyval \<Rightarrow> pyval \<Rightarrow> bool"
  and py_eq_items :: "pyval list \<Rightarrow> pyval list \<Rightarrow> bool"
  and py_eq_members :: "(string \<times> pyval) list \<Rightarrow> (string \<times> pyval) list \<Rightarrow> bool" where
  "py_eq PNone w = (w = PNone)"
| "py_eq (PBool a) w =
     (case w of PBool b \<Rightarrow> a = b | PInt j \<Rightarrow> (if a then 1 else 0) = j | _ \<Rightarrow> False)"
| "py_eq (PInt i) w =
     (case w of PBool b \<Rightarrow> i = (if b then 1 else 0) | PInt j \<Rightarrow> i = j | _ \<Rightarrow> False)"
| "py_eq (PStr s) w = (w = PStr s)"
| "py_eq (PList a) w = (case w of PList b \<Rightarrow> py_eq_items a b | _ \<Rightarrow> False)"
| "py_eq (PDict a) w =
     (case w of PDict b \<Rightarrow> length a = length b \<and> py_eq_members a b | _ \<Rightarrow> False)"
| "py_eq_items [] b = (b = [])"
| "py_eq_items (v # vs) b = (case b of [] \<Rightarrow> False | w # ws \<Rightarrow> py_eq v w \<and> py_eq_items vs ws)"
| "py_eq_members [] b = True"
| "py_eq_members ((k, v) # ms) b =
     ((case map_of b k of None \<Rightarrow> False | Some w \<Rightarrow> py_eq v w) \<and> py_eq_members ms b)"

fun is_substring :: "string \<Rightarrow> string \<Rightarrow> bool" where
  "is_substring t [] = (t = [])"
| "is_substring t (c # cs) = (take (length t) (c # cs) = t \<or> is_substring t cs)"

definition list_item :: "pyval list \<Rightarrow> int \<Rightarrow> error + pyval option" where
  "list_item l i =
     (if 0 \<le> i \<and> i < int (length l) then Inr (Some (l ! nat i))
      else if - int (length l) \<le> i \<and> i < 0 then Inr (Some (l ! nat (int (length l) + i)))
      else Inl IndexError)"

fun loaded_lookup :: "pyval \<Rightarrow> pyval \<Rightarrow> error + pyval option" where
  "loaded_lookup (PDict d) keyword = kb_lookup d keyword"
| "loaded_lookup (PList l) keyword =
     (if list_ex (\<lambda>e. py_eq e keyword) l then
        (case keyword of
           PInt i \<Rightarrow> list_item l i
         | PBool b \<Rightarrow> list_item l (if b then 1 else 0)
         | _ \<Rightarrow> Inl TypeError)
      else Inr None)"
| "loaded_lookup (PStr s) keyword =
     (case keyword of
        PStr t \<Rightarrow> if is_substring t s then Inl TypeError else Inr None
      | _ \<Rightarrow> Inl TypeError)"
| "loaded_lookup _ keyword = Inl TypeError"

definition enrich_one_loaded :: "pyval \<Rightarrow> finding \<Rightarrow> error + finding" where
  "enrich_one_loaded loaded finding =
     (let keyword = dict_get finding ''shortform_keyword'' in
      case loaded_lookup loaded keyword of
        Inl e \<Rightarrow> Inl e
      | Inr (Some (PDict entry)) \<Rightarrow> Inr (dict_merge finding entry)
      | Inr (Some _) \<Rightarrow> Inl TypeError
      | Inr None \<Rightarrow> Inr finding)"

fun enrich_loop_loaded :: "pyval \<Rightarrow> finding list \<Rightarrow> finding list \<Rightarrow> error + finding list" where
  "enrich_loop_loaded loaded [] enriched = Inr enriched"
| "enrich_loop_loaded loaded (finding # rest) enriched =
     (case enrich_one_loaded loaded finding of
        Inl e \<Rightarrow> Inl e
      | Inr enriched_finding \<Rightarrow> enrich_loop_loaded loaded rest (enriched @ [enriched_finding]))"

definition dict_path :: "string \<Rightarrow> string" where
  "dict_path data_dir = path_join data_dir ''findings_dictionary.json''"

definition enrich_findings ::
  "pylib \<Rightarrow> filesystem \<Rightarrow> string \<Rightarrow> finding list \<Rightarrow> error + finding list" where
  "enrich_findings lib fs data_dir findings =
     (if \<not> os_path_exists fs (dict_path data_dir) then Inr findings
      else
        (case open_read fs (dict_path data_dir) of
           Inl e \<Rightarrow> Inl e
         | Inr c \<Rightarrow>
             (case json_load lib c of
                Inl e \<Rightarrow> Inl e
              | Inr (PDict findings_dict) \<Rightarrow> enrich_loop findings_dict findings []
              | Inr loaded \<Rightarrow> enrich_loop_loaded loaded findings [])))"

text \<open>
  \<open>_generate_summary\<close>. The keys of \<open>severity_counts\<close> are the severity values
  themselves, compared as Python compares dictionary keys: \<open>True\<close> and \<open>1\<close> are the same
  key, as are \<open>False\<close> and \<open>0\<close>. An entry keeps the key object it was created with.
\<close>

fun key_norm :: "pyval \<Rightarrow> pyval" where
  "key_norm (PBool b) = PInt (if b then 1 else 0)"
| "key_norm v = v"

definition key_eq :: "pyval \<Rightarrow> pyval \<Rightarrow> bool" where
  "key_eq a b = (key_norm a = key_norm b)"

type_synonym counts = "(pyval \<times> int) list"

fun counts_get :: "counts \<Rightarrow> pyval \<Rightarrow> int" where
  "counts_get [] k = 0"
| "counts_get ((k', c) # rest) k = (if key_eq k' k then c else counts_get rest k)"

fun counts_set :: "counts \<Rightarrow> pyval \<Rightarrow> int \<Rightarrow> counts" where
  "counts_set [] k c = [(k, c)]"
| "counts_set ((k', c') # rest) k c =
     (if key_eq k' k then (k', c) # rest else (k', c') # counts_set rest k c)"

record summary =
  total_findings :: int
  severity_breakdown :: counts

definition severity_of :: "finding \<Rightarrow> pyval" where
  "severity_of finding = dict_get_default finding ''severity'' (PStr ''UNKNOWN'')"

text \<open>\<open>severity_counts[severity] = severity_counts.get(severity, 0) + 1\<close>\<close>

definition count_severity :: "counts \<Rightarrow> pyval \<Rightarrow> counts" where
  "count_severity severity_counts severity =
     counts_set severity_counts severity (counts_get severity_counts severity + 1)"

fun summary_loop :: "finding list \<Rightarrow> counts \<Rightarrow> error + counts" where
  "summary_loop [] severity_counts = Inr severity_counts"
| "summary_loop (finding # rest) severity_counts =
     (let severity = severity_of finding in
      if \<not> hashable severity then Inl TypeError
      else summary_loop rest (count_severity severity_counts severity))"

text \<open>The keys of a count dictionary, as Python compares them.\<close>

definition count_keys :: "counts \<Rightarrow> pyval list" where
  "count_keys sc = map (\<lambda>(k, c). key_norm k) sc"

definition generate_summary :: "finding list \<Rightarrow> error + summary" where
  "generate_summary findings =
     (case summary_loop findings [] of
        Inl e \<Rightarrow> Inl e
      | Inr severity_counts \<Rightarrow>
          Inr \<lparr>total_findings = int (length findings), severity_breakdown = severity_counts\<rparr>)"

definition entries_are_dicts :: "pydict \<Rightarrow> bool" where
  "entries_are_dicts K = list_all (\<lambda>(k, v). case v of PDict _ \<Rightarrow> True | _ \<Rightarrow> False) K"

definition keyword_hashable :: "finding \<Rightarrow> bool" where
  "keyword_hashable finding = hashable (dict_get finding ''shortform_keyword'')"

definition example_kb :: pydict where
  "example_kb = [(''SQLI'', PDict [(''title'', PStr ''SQL injection''), (''severity'', PStr ''HIGH'')])]"

definition example_findings :: "finding list" where
  "example_findings =
     [[(''shortform_keyword'', PStr ''SQLI''), (''severity'', PStr ''LOW''), (''line_number'', PInt 7)],
      [(''shortform_keyword'', PStr ''XSS'')],
      [(''file_path'', PStr ''a.py'')]]"

definition example_fs :: filesystem where
  "example_fs =
     \<lparr>files = [''/data/findings_dictionary.json'' \<mapsto> JsonObject example_kb],
      dirs = {''/data''}\<rparr>"

definition no_kb_entry :: "pydict \<Rightarrow> finding \<Rightarrow> bool" where
  "no_kb_entry K finding =
     (case dict_get finding ''shortform_keyword'' of
        PStr s \<Rightarrow> map_of K s = None
      | v \<Rightarrow> hashable v)"

definition severity_hashable :: "finding \<Rightarrow> bool" where
  "severity_hashable finding = hashable (severity_of finding)"

definition empty_fs :: filesystem where
  "empty_fs = \<lparr>files = Map.empty, dirs = {}\<rparr>"

definition example_severities :: "finding list" where
  "example_severities =
     [[(''shortform_keyword'', PStr ''SQLI''), (''severity'', PStr ''HIGH'')],
      [(''shortform_keyword'', PStr ''XSS'')],
      [(''shortform_keyword'', PStr ''SQLI''), (''severity'', PStr ''HIGH'')],
      [(''severity'', PStr ''LOW'')]]"

section \<open>AnalysisService: the scan record and its storage\<close>

text \<open>
  \<open>RepoInfoExtractor.extract\<close> returns a dictionary with four keys. What it finds in
  the repository (the README text or \<open>None\<close>, the policy, dependency and documentation
  files) is read from the cloned repository and is a parameter here.
\<close>

definition extract_repo_info :: "pyval \<Rightarrow> pyval \<Rightarrow> pyval \<Rightarrow> pyval \<Rightarrow> pydict" where
  "extract_repo_info readme policies dependencies documentation =
     [(''readme'', readme),
      (''policies'', policies),
      (''dependencies'', dependencies),
      (''documentation'', documentation)]"

text \<open>
  The summary inside a scan record, in the form in which \<open>json.dump\<close> writes it and
  \<open>json.load\<close> reads it back: the keys of a JSON object are strings, so a severity
  that is not a string is written as its JSON text.
\<close>

fun json_key :: "pyval \<Rightarrow> string" where
  "json_key (PStr s) = s"
| "json_key (PBool b) = (if b then ''true'' else ''false'')"
| "json_key (PInt i) = str_int i"
| "json_key _ = ''null''"

definition summary_json :: "summary \<Rightarrow> pyval" where
  "summary_json s =
     PDict [(''total_findings'', PInt (total_findings s)),
            (''severity_breakdown'',
             PDict (fold (\<lambda>(k, c). AList.update (json_key k) (PInt c)) (severity_breakdown s) []))]"

text \<open>
  \<open>_save_scan_results\<close>: the results directory is made, then the file is opened for
  writing and \<open>json.dump\<close> writes the record. Either step may raise; the directory
  stays when the second one does.
\<close>

definition save_scan_results ::
  "pylib \<Rightarrow> filesystem \<Rightarrow> string \<Rightarrow> string \<Rightarrow> pydict \<Rightarrow> (error + unit) \<times> filesystem" where
  "save_scan_results lib fs data_dir scan_id results =
     (let results_dir = path_join data_dir ''scanned_results''
      in case makedirs fs results_dir of
           Inl e \<Rightarrow> (Inl e, fs)
         | Inr fs' \<Rightarrow>
             (let results_path = path_join results_dir (scan_id @ ''.json'')
              in case open_write fs' results_path (Text (json_dumps lib results)) of
                   Inl e \<Rightarrow> (Inl e, fs')
                 | Inr fs'' \<Rightarrow> (Inr (), fs'')))"

text \<open>
  \<open>analyze_codebase\<close>. The fresh UUID, the current time, the extracted repository
  information and the outcome of the external analyzer are parameters. Any exception is
  re-raised as \<open>Exception("Analysis failed: ...")\<close>.
\<close>

definition analyze_codebase ::
  "pylib \<Rightarrow> filesystem \<Rightarrow> string \<Rightarrow> string \<Rightarrow> string \<Rightarrow> string \<Rightarrow> pydict \<Rightarrow>
   error + finding list \<Rightarrow> string \<Rightarrow> pyval \<Rightarrow> (error + pydict) \<times> filesystem" where
  "analyze_codebase lib fs data_dir plan scan_id timestamp repo_info analysis repo_path sector_hint =
     (case bind_result analysis (\<lambda>code_findings.
             bind_result (enrich_findings lib fs data_dir code_findings) (\<lambda>enriched_findings.
             bind_result (generate_summary enriched_findings) (\<lambda>summary.
               Inr [(''scan_id'', PStr scan_id),
                    (''timestamp'', PStr timestamp),
                    (''repository_path'', PStr repo_path),
                    (''sector_hint'', sector_hint),
                    (''plan_used'', PStr plan),
                    (''repository_info'', PDict repo_info),
                    (''findings'', PList (map PDict enriched_findings)),
                    (''summary'', summary_json summary)]))) of
        Inl e \<Rightarrow> (Inl (Failed ''Analysis failed: '' e), fs)
      | Inr scan_results \<Rightarrow>
          (case save_scan_results lib fs data_dir scan_id scan_results of
             (Inl e, fs') \<Rightarrow> (Inl (Failed ''Analysis failed: '' e), fs')
           | (Inr u, fs') \<Rightarrow> (Inr scan_results, fs')))"

section \<open>ReportService\<close>

text \<open>
  \<open>_load_scan_results\<close>. The scan id comes from the request and may be any JSON
  value; the file name is made from its \<open>str\<close>.
\<close>

definition load_scan_results :: "pylib \<Rightarrow> filesystem \<Rightarrow> string \<Rightarrow> pyval \<Rightarrow> error + pyval" where
  "load_scan_results lib fs data_dir scan_id =
     (let results_path =
            path_join (path_join data_dir ''scanned_results'') (py_str lib scan_id @ ''.json'')
      in if \<not> os_path_exists fs results_path
         then Inl (FileNotFoundError (''Scan results not found for ID: '' @ py_str lib scan_id))
         else bind_result (open_read fs results_path) (json_load lib))"

text \<open>
  \<open>f.read()\<close> on a file opened as UTF-8 text. A JSON file reads as its text; a Word
  document is a binary archive and does not decode.
\<close>

fun read_text :: "pylib \<Rightarrow> content \<Rightarrow> error + string" where
  "read_text lib (Text s) = Inr s"
| "read_text lib (JsonObject d) = Inr (json_dumps lib d)"
| "read_text lib (Docx _) = Inl UnicodeDecodeError"

text \<open>
  \<open>_load_template\<close>. The report type comes from the request and may be any JSON
  value: \<open>template_mapping.get\<close> raises TypeError for an unhashable one and finds
  nothing for one that is not a string.
\<close>

definition template_mapping :: "(string \<times> string) list" where
  "template_mapping =
     [(''regulatory_compliance'', ''regulatory_compliance_template.md''),
      (''technical_operational'', ''technical_operational_template.md''),
      (''business_focused'', ''business_focused_template.md'')]"

fun mapping_get :: "(string \<times> string) list \<Rightarrow> pyval \<Rightarrow> error + string option" where
  "mapping_get m (PStr s) = Inr (map_of m s)"
| "mapping_get m (PList _) = Inl TypeError"
| "mapping_get m (PDict _) = Inl TypeError"
| "mapping_get m _ = Inr None"

definition load_template :: "pylib \<Rightarrow> filesystem \<Rightarrow> string \<Rightarrow> pyval \<Rightarrow> error + string" where
  "load_template lib fs templates_dir report_type =
     bind_result (mapping_get template_mapping report_type) (\<lambda>found.
       case found of
         None \<Rightarrow> Inl (ValueError (''Unknown report type: '' @ py_str lib report_type))
       | Some template_file \<Rightarrow>
           if template_file = []
           then Inl (ValueError (''Unknown report type: '' @ py_str lib report_type))
           else
             (let template_path = path_join templates_dir template_file
              in if \<not> os_path_exists fs template_path
                 then Inl (FileNotFoundError (''Template not found: '' @ template_path))
                 else bind_result (open_read fs template_path) (read_text lib)))"

subsection \<open>The local report generator\<close>

definition blank_line :: string where
  "blank_line = [newline, newline]"

text \<open>
  The loop over \<open>repo_info.get('found', {}).items()\<close>: the \<open>content\<close> of the first
  entry whose key starts with \<open>README\<close>, or \<open>None\<close>.
\<close>

fun find_readme :: "pydict \<Rightarrow> error + pyval" where
  "find_readme [] = Inr PNone"
| "find_readme ((k, v) # rest) =
     (if startswith k ''README''
      then bind_result (as_dict v) (\<lambda>d. Inr (dict_get d ''content''))
      else find_readme rest)"

definition executive_summary_parts :: "pyval \<Rightarrow> error + string list" where
  "executive_summary_parts repo_info =
     bind_result (as_dict repo_info) (\<lambda>info.
     bind_result (as_dict (dict_get_default info ''found'' (PDict []))) (\<lambda>found.
     bind_result (find_readme found) (\<lambda>readme_text.
       if truthy readme_text then
         bind_result (as_str readme_text) (\<lambda>text.
           let excerpt = take 1200 (py_strip text)
           in Inr [blank_line @ ''## Executive Summary'',
                   ''Context from repository README:'',
                   excerpt @ (if length text > 1200 then ''...'' else [])])
       else
         Inr [blank_line @ ''## Executive Summary'',
              ''No README found; executive summary is derived from scan findings and templates.''])))"

definition scan_summary_parts :: "pylib \<Rightarrow> pydict \<Rightarrow> error + string list" where
  "scan_summary_parts lib scan_results =
     bind_result (as_dict (dict_get_default scan_results ''summary'' (PDict []))) (\<lambda>summary.
     bind_result (as_dict (dict_get_default summary ''severity_breakdown'' (PDict []))) (\<lambda>severity.
       Inr ([blank_line @ ''## Scan Summary'',
             ''- Total findings: '' @ py_str lib (dict_get_default summary ''total_findings'' (PInt 0))]
            @ map (\<lambda>(sev, count). ''- '' @ sev @ '': '' @ py_str lib count) severity)))"

text \<open>The parts that the loop over the findings appends for finding number \<open>idx\<close>.\<close>

definition finding_parts :: "pylib \<Rightarrow> nat \<Rightarrow> pydict \<Rightarrow> error + string list" where
  "finding_parts lib idx f =
     (let title = py_or (dict_get f ''title'') (dict_get f ''shortform_keyword'');
          short = dict_get f ''shortform_keyword'';
          path = py_or (dict_get f ''file_path'') (PStr ''N/A'');
          line = dict_get f ''line_number'';
          sev = dict_get f ''severity'';
          desc = py_or (dict_get f ''description'') (PStr []);
          snippet = py_or (dict_get f ''context_snippet'') (PStr []);
          remediation = py_or (dict_get f ''remediation'') (PStr ''Refer to template remediation.'');
          compliance = py_or (dict_get f ''compliance'') (PList [])
      in bind_result
           (if truthy snippet
            then bind_result (as_str snippet) (\<lambda>s.
                   Inr [newline # ''**Evidence (code snippet):**'', ''```'',
                        take 800 (py_strip s), ''```''])
            else Inr []) (\<lambda>evidence.
         bind_result
           (if truthy compliance
            then bind_result (py_join_iterable '', '' compliance) (\<lambda>joined.
                   Inr [''- Compliance mappings: '' @ joined])
            else Inr []) (\<lambda>mappings.
           Inr ([''### '' @ str_nat idx @ ''. '' @ py_str lib title @ '' ('' @ py_str lib short @ '')'',
                 ''- Severity: '' @ py_str lib sev,
                 ''- Location: '' @ py_str lib path @ '':'' @ py_str lib line]
                @ (if truthy desc then [''- Description: '' @ py_str lib desc] else [])
                @ evidence
                @ [''- Recommendation: '' @ py_str lib remediation]
                @ mappings
                @ [[newline]]))))"

fun findings_loop :: "pylib \<Rightarrow> nat \<Rightarrow> pyval list \<Rightarrow> error + string list" where
  "findings_loop lib idx [] = Inr []"
| "findings_loop lib idx (f # rest) =
     bind_result (as_dict f) (\<lambda>d.
     bind_result (finding_parts lib idx d) (\<lambda>parts.
     bind_result (findings_loop lib (Suc idx) rest) (\<lambda>more.
       Inr (parts @ more))))"

text \<open>
  \<open>enumerate(findings, 1)\<close> on a value that is not a list: a dictionary yields its keys
  and a string its characters, on which \<open>f.get\<close> raises AttributeError; a number is not
  iterable.
\<close>

definition detailed_findings_parts :: "pylib \<Rightarrow> pydict \<Rightarrow> error + string list" where
  "detailed_findings_parts lib scan_results =
     (let findings = dict_get_default scan_results ''findings'' (PList [])
      in if \<not> truthy findings then
           Inr [blank_line @ ''## Detailed Findings and Analysis'',
                ''No findings detected during automated analysis.'']
         else
           (case findings of
              PList l \<Rightarrow>
                bind_result (findings_loop lib 1 l) (\<lambda>parts.
                  Inr ((blank_line @ ''## Detailed Findings and Analysis'') # parts))
            | PDict _ \<Rightarrow> Inl AttributeError
            | PStr _ \<Rightarrow> Inl AttributeError
            | _ \<Rightarrow> Inl TypeError))"

text \<open>
  The contents of the \<open>gemini_analysis\<close> sections are appended as they are, whatever
  their type; the final \<open>join\<close> raises if one of them is not a string.
\<close>

definition gemini_analysis_parts :: "pydict \<Rightarrow> error + pyval list" where
  "gemini_analysis_parts scan_results =
     (let gemini_analysis = dict_get_default scan_results ''gemini_analysis'' (PDict [])
      in if truthy gemini_analysis then
           bind_result (as_dict gemini_analysis) (\<lambda>sections.
             Inr (PStr (blank_line @ ''## Gemini Analysis'')
                  # concat (map (\<lambda>(section, content). [PStr (''### '' @ section), content]) sections)))
         else Inr [])"

fun policy_loop :: "pydict \<Rightarrow> error + string list" where
  "policy_loop [] = Inr []"
| "policy_loop ((ppath, content) # rest) =
     bind_result (as_str content) (\<lambda>text.
     bind_result (policy_loop rest) (\<lambda>more.
       Inr ([''### '' @ ppath,
             take 1000 (py_strip text) @ (if length text > 1000 then ''...'' else [])] @ more)))"

definition policy_parts :: "pyval \<Rightarrow> error + string list" where
  "policy_parts repo_info =
     bind_result (as_dict repo_info) (\<lambda>info.
       if truthy (dict_get info ''policy_files'') then
         bind_result (as_dict (dict_get_default info ''policy_files'' (PDict []))) (\<lambda>policy_files.
         bind_result (policy_loop policy_files) (\<lambda>parts.
           Inr ((blank_line @ ''## Repository Policies (excerpts)'') # parts)))
       else Inr [])"

definition closing_parts :: "string list" where
  "closing_parts =
     [blank_line @ ''## Methodology'',
      ''Automated scanners used:'',
      ''- CodeT5-based static heuristics (pattern checks)'',
      ''- SCA heuristics scanning requirements.txt and package.json'',
      ''- Repository context extractor for README and policy files'',
      blank_line @ ''## Limitations'',
      ''- The CodeT5 analyzer currently only processes Python files; other languages may not be covered.'',
      ''- SCA is heuristic-based and does not perform CVE lookups or transitive analysis.'',
      ''- This automated report is intended as a starting point; manual review is recommended for high-severity findings.'',
      blank_line @ ''-- End of report (generated locally) --'']"

text \<open>\<open>_local_generate\<close>\<close>

definition local_generate :: "pylib \<Rightarrow> pydict \<Rightarrow> string \<Rightarrow> string \<Rightarrow> error + string" where
  "local_generate lib scan_results template report_type =
     (let repo_info = dict_get_default scan_results ''repo_info'' (PDict [])
      in bind_result (executive_summary_parts repo_info) (\<lambda>executive.
         bind_result (scan_summary_parts lib scan_results) (\<lambda>scan_summary.
         bind_result (detailed_findings_parts lib scan_results) (\<lambda>detailed.
         bind_result (gemini_analysis_parts scan_results) (\<lambda>gemini.
         bind_result (policy_parts repo_info) (\<lambda>policies.
           py_join blank_line
             (map PStr
                ([''# '' @ py_title (replace_underscores report_type) @ '' (Local Generated)'',
                  [newline], template]
                 @ executive @ scan_summary @ detailed)
              @ gemini
              @ map PStr (policies @ closing_parts))))))))"

subsection \<open>Generation with the external model\<close>

text \<open>The prompt built by \<open>_generate_with_gemini\<close>, line by line.\<close>

definition prompt_lines :: "pylib \<Rightarrow> pydict \<Rightarrow> string \<Rightarrow> string \<Rightarrow> string list" where
  "prompt_lines lib scan_results template report_type =
     [[],
      ''        You are a professional security report generator. Use the provided template and security scan data to create a comprehensive ''
        @ replace_underscores report_type @ '' report.'',
      [],
      ''        TEMPLATE:'',
      ''        '' @ template,
      [],
      ''        SECURITY SCAN DATA:'',
      ''        '' @ json_dumps lib scan_results,
      [],
      ''        Instructions:'',
      ''        1. Follow the template structure exactly'',
      ''        2. Replace placeholders with actual data from the scan results'',
      ''        3. Write in professional, clear language'',
      ''        4. Include specific findings with file paths and line numbers where applicable'',
      ''        5. Provide actionable recommendations'',
      ''        6. Ensure compliance mappings are accurate'',
      ''        '',
      ''        Generate the complete report:'',
      ''        '']"

definition prompt :: "pylib \<Rightarrow> pydict \<Rightarrow> string \<Rightarrow> string \<Rightarrow> string" where
  "prompt lib scan_results template report_type =
     join_strings [newline] (prompt_lines lib scan_results template report_type)"

text \<open>
  \<open>_generate_with_gemini\<close>. The model is absent (\<open>self.model\<close> is \<open>None\<close>) or a
  function from the prompt to the text of its response, which may raise.
\<close>

definition generate_with_gemini ::
  "pylib \<Rightarrow> (string \<Rightarrow> error + string) option \<Rightarrow> pydict \<Rightarrow> string \<Rightarrow> string \<Rightarrow> error + string" where
  "generate_with_gemini lib model scan_results template report_type =
     (case model of
        None \<Rightarrow> local_generate lib scan_results template report_type
      | Some generate_content \<Rightarrow>
          (case generate_content (prompt lib scan_results template report_type) of
             Inr text \<Rightarrow> Inr text
           | Inl e \<Rightarrow> local_generate lib scan_results template report_type))"

subsection \<open>Formatting and saving\<close>

text \<open>
  A Word document is the list of its blocks. \<open>Document.add_heading(text, level)\<close> of
  python-docx raises ValueError unless the level is between 0 and 9.
\<close>

definition add_heading :: "block list \<Rightarrow> string \<Rightarrow> nat \<Rightarrow> error + block list" where
  "add_heading doc text level =
     (if level \<le> 9 then Inr (doc @ [Heading text level])
      else Inl (ValueError (''level must be in range 0-9, got '' @ str_nat level)))"

definition add_paragraph :: "block list \<Rightarrow> string \<Rightarrow> block list" where
  "add_paragraph doc text = doc @ [Paragraph text]"

text \<open>The loop of \<open>_format_and_save_report\<close> over the paragraphs of the content.\<close>

fun format_paragraphs :: "string list \<Rightarrow> block list \<Rightarrow> error + block list" where
  "format_paragraphs [] doc = Inr doc"
| "format_paragraphs (paragraph # rest) doc =
     (if py_strip paragraph \<noteq> [] then
        (if startswith paragraph ''#'' then
           (let level = count_char CHR ''#'' paragraph;
                text = py_strip (strip_char CHR ''#'' paragraph)
            in case add_heading doc text level of
                 Inl e \<Rightarrow> Inl e
               | Inr doc' \<Rightarrow> format_paragraphs rest doc')
         else format_paragraphs rest (add_paragraph doc (py_strip paragraph)))
      else format_paragraphs rest doc)"

text \<open>
  \<open>_format_and_save_report\<close>. The time stamp of the file name is a parameter. The
  reports directory is made before the document is built, so it stays when building or
  saving fails.
\<close>

definition format_and_save_report ::
  "pylib \<Rightarrow> filesystem \<Rightarrow> string \<Rightarrow> string \<Rightarrow> string \<Rightarrow> pyval \<Rightarrow> string \<Rightarrow>
   (error + string) \<times> filesystem" where
  "format_and_save_report lib fs data_dir timestamp content scan_id report_type =
     (let reports_dir = path_join data_dir ''generated_reports''
      in case makedirs fs reports_dir of
           Inl e \<Rightarrow> (Inl e, fs)
         | Inr fs' \<Rightarrow>
             (let filename = report_type @ ''_'' @ py_str lib scan_id @ ''_'' @ timestamp @ ''.docx'';
                  report_path = path_join reports_dir filename
              in case bind_result
                        (add_heading []
                           (''Security '' @ py_title (replace_underscores report_type) @ '' Report'') 0)
                        (format_paragraphs (split_blank_lines [] content)) of
                   Inl e \<Rightarrow> (Inl e, fs')
                 | Inr doc \<Rightarrow>
                     (case open_write fs' report_path (Docx doc) of
                        Inl e \<Rightarrow> (Inl e, fs')
                      | Inr fs'' \<Rightarrow> (Inr report_path, fs''))))"

text \<open>
  \<open>generate_report\<close>. Every exception is re-raised as
  \<open>Exception("Report generation failed: ...")\<close>. The first \<open>print\<close> after loading
  calls \<open>.get\<close> on what was loaded, which raises AttributeError when the file does
  not hold an object, and takes \<open>len\<close> of the findings, which raises for a value
  without a length. Past \<open>_load_template\<close> the report type is one of the three
  strings of the mapping; \<open>report_type.replace\<close> on any other value would raise
  AttributeError.
\<close>

definition generate_report ::
  "pylib \<Rightarrow> (string \<Rightarrow> error + string) option \<Rightarrow> string \<Rightarrow> string \<Rightarrow> string \<Rightarrow>
   filesystem \<Rightarrow> pyval \<Rightarrow> pyval \<Rightarrow> (error + string) \<times> filesystem" where
  "generate_report lib model data_dir templates_dir timestamp fs scan_id report_type =
     (case bind_result (load_scan_results lib fs data_dir scan_id) (\<lambda>loaded.
             bind_result (as_dict loaded) (\<lambda>scan_results.
             bind_result (py_len (dict_get_default scan_results ''findings'' (PList []))) (\<lambda>n.
             bind_result (load_template lib fs templates_dir report_type) (\<lambda>template.
             bind_result (as_str report_type) (\<lambda>type_name.
             bind_result (generate_with_gemini lib model scan_results template type_name) (\<lambda>report_content.
               Inr (type_name, report_content))))))) of
        Inl e \<Rightarrow> (Inl (Failed ''Report generation failed: '' e), fs)
      | Inr (type_name, report_content) \<Rightarrow>
          (case format_and_save_report lib fs data_dir timestamp report_content scan_id type_name of
             (Inl e, fs') \<Rightarrow> (Inl (Failed ''Report generation failed: '' e), fs')
           | (Inr report_path, fs') \<Rightarrow> (Inr report_path, fs')))"

section \<open>A JSON library\<close>

text \<open>
  A JSON writer and parser to stand for the \<open>json\<close> module where a theorem is used
  at a concrete library. The writer puts no white space between the tokens and escapes
  the quote and the backslash inside strings; the parser reads that form. As in Python,
  the last of several members with one name wins.
\<close>

definition quote :: char where
  "quote = CHR 0x22"

definition backslash :: char where
  "backslash = CHR 0x5C"

fun escape_json :: "string \<Rightarrow> string" where
  "escape_json [] = []"
| "escape_json (c # cs) =
     (if c = quote \<or> c = backslash then backslash # c # escape_json cs
      else c # escape_json cs)"

definition write_string :: "string \<Rightarrow> string" where
  "write_string s = quote # escape_json s @ [quote]"

fun write_value :: "pyval \<Rightarrow> string"
  and write_items :: "pyval list \<Rightarrow> string"
  and write_members :: "(string \<times> pyval) list \<Rightarrow> string" where
  "write_value PNone = ''null''"
| "write_value (PBool b) = (if b then ''true'' else ''false'')"
| "write_value (PInt i) = str_int i"
| "write_value (PStr s) = write_string s"
| "write_value (PList []) = ''[]''"
| "write_value (PList (v # vs)) = CHR ''['' # write_items (v # vs)"
| "write_value (PDict []) = ''{}''"
| "write_value (PDict (m # ms)) = CHR ''{'' # write_members (m # ms)"
| "write_items [] = '']''"
| "write_items [v] = write_value v @ '']''"
| "write_items (v # w # vs) = write_value v @ CHR '','' # write_items (w # vs)"
| "write_members [] = ''}''"
| "write_members [(k, v)] = write_string k @ CHR '':'' # write_value v @ ''}''"
| "write_members ((k, v) # m # ms) =
     write_string k @ CHR '':'' # write_value v @ CHR '','' # write_members (m # ms)"

text \<open>The text of a string up to its closing quote, and what follows the quote.\<close>

fun read_string :: "string \<Rightarrow> string \<Rightarrow> (string \<times> string) option" where
  "read_string acc [] = None"
| "read_string acc [c] = (if c = quote then Some (acc, []) else None)"
| "read_string acc (c # d # ds) =
     (if c = quote then Some (acc, d # ds)
      else if c = backslash then read_string (acc @ [d]) ds
      else read_string (acc @ [c]) (d # ds))"

definition is_digit :: "char \<Rightarrow> bool" where
  "is_digit c = (48 \<le> (of_char c :: nat) \<and> (of_char c :: nat) \<le> 57)"

definition digits_value :: "string \<Rightarrow> nat" where
  "digits_value ds = foldl (\<lambda>n c. 10 * n + ((of_char c :: nat) - 48)) 0 ds"

definition read_nat :: "string \<Rightarrow> (nat \<times> string) option" where
  "read_nat s =
     (let ds = takeWhile is_digit s
      in if ds = [] then None else Some (digits_value ds, dropWhile is_digit s))"

definition read_number :: "string \<Rightarrow> (pyval \<times> string) option" where
  "read_number s =
     (case s of
        [] \<Rightarrow> None
      | c # cs \<Rightarrow>
          if c = CHR ''-''
          then map_option (\<lambda>(n, rest). (PInt (- int n), rest)) (read_nat cs)
          else map_option (\<lambda>(n, rest). (PInt (int n), rest)) (read_nat s))"

text \<open>
  The parser proper. Its first argument bounds the number of nested calls; the length of
  the text is enough.
\<close>

fun read_value :: "nat \<Rightarrow> string \<Rightarrow> (pyval \<times> string) option"
  and read_items :: "nat \<Rightarrow> string \<Rightarrow> (pyval list \<times> string) option"
  and read_members :: "nat \<Rightarrow> string \<Rightarrow> ((string \<times> pyval) list \<times> string) option" where
  "read_value 0 s = None"
| "read_value (Suc n) s =
     (if startswith s ''null'' then Some (PNone, drop 4 s)
      else if startswith s ''true'' then Some (PBool True, drop 4 s)
      else if startswith s ''false'' then Some (PBool False, drop 5 s)
      else if startswith s [quote] then
        map_option (\<lambda>(text, rest). (PStr text, rest)) (read_string [] (drop 1 s))
      else if startswith s ''[]'' then Some (PList [], drop 2 s)
      else if startswith s ''['' then
        map_option (\<lambda>(vs, rest). (PList vs, rest)) (read_items n (drop 1 s))
      else if startswith s ''{}'' then Some (PDict [], drop 2 s)
      else if startswith s ''{'' then
        map_option (\<lambda>(ms, rest). (PDict (fold (\<lambda>(k, v). AList.update k v) ms []), rest))
          (read_members n (drop 1 s))
      else read_number s)"
| "read_items 0 s = None"
| "read_items (Suc n) s =
     (case read_value n s of
        None \<Rightarrow> None
      | Some (v, rest) \<Rightarrow>
          (if startswith rest '']'' then Some ([v], drop 1 rest)
           else if startswith rest '','' then
             map_option (\<lambda>(vs, rest'). (v # vs, rest')) (read_items n (drop 1 rest))
           else None))"
| "read_members 0 s = None"
| "read_members (Suc n) s =
     (if startswith s [quote] then
        (case read_string [] (drop 1 s) of
           None \<Rightarrow> None
         | Some (k, rest) \<Rightarrow>
             (if startswith rest '':'' then
                (case read_value n (drop 1 rest) of
                   None \<Rightarrow> None
                 | Some (v, rest') \<Rightarrow>
                     (if startswith rest' ''}'' then Some ([(k, v)], drop 1 rest')
                      else if startswith rest' '','' then
                        map_option (\<lambda>(ms, rest''). ((k, v) # ms, rest''))
                          (read_members n (drop 1 rest'))
                      else None))
              else None))
      else None)"

definition write_json :: "pydict \<Rightarrow> string" where
  "write_json d = write_value (PDict d)"

definition read_json :: "string \<Rightarrow> error + pyval" where
  "read_json s =
     (case read_value (Suc (length s)) s of
        Some (v, []) \<Rightarrow> Inr v
      | _ \<Rightarrow> Inl JSONDecodeError)"

text \<open>What may follow a number in a text: the end, or a character that is no digit.\<close>

definition clean :: "string \<Rightarrow> bool" where
  "clean rest = (case rest of [] \<Rightarrow> True | c # cs \<Rightarrow> \<not> is_digit c)"

text \<open>
  The values that are Python objects: inside them no dictionary has the same key twice.
\<close>

fun proper_value :: "pyval \<Rightarrow> bool"
  and proper_items :: "pyval list \<Rightarrow> bool"
  and proper_members :: "(string \<times> pyval) list \<Rightarrow> bool" where
  "proper_value (PList vs) = proper_items vs"
| "proper_value (PDict ms) = (distinct (map fst ms) \<and> proper_members ms)"
| "proper_value _ = True"
| "proper_items [] = True"
| "proper_items (v # vs) = (proper_value v \<and> proper_items vs)"
| "proper_members [] = True"
| "proper_members ((k, v) # ms) = (proper_value v \<and> proper_members ms)"

section \<open>Notions of the specification and example data\<close>

text \<open>
  The heading level as the specification words it (the number of leading markers), the
  path of a scan record, and the inputs at which the theorems below are instantiated.
\<close>

definition leading_markers :: "string \<Rightarrow> nat" where
  "leading_markers block = length (takeWhile (\<lambda>c. c = CHR ''#'') block)"

definition scan_results_path :: "string \<Rightarrow> string \<Rightarrow> string" where
  "scan_results_path data_dir scan_id =
     path_join (path_join data_dir ''scanned_results'') (scan_id @ ''.json'')"


definition example_record :: pydict where
  "example_record =
     [(''scan_id'', PStr ''s1''),
      (''timestamp'', PStr ''2026-01-01T00:00:00''),
      (''repository_path'', PStr ''/repo''),
      (''sector_hint'', PStr ''health''),
      (''plan_used'', PStr ''basic''),
      (''repository_info'',
       PDict [(''readme'', PStr ''Patient portal''), (''policies'', PDict []),
              (''dependencies'', PDict []), (''documentation'', PDict [])]),
      (''findings'', PList []),
      (''summary'', PDict [(''total_findings'', PInt 0), (''severity_breakdown'', PDict [])])]"

text \<open>
  The library at which the theorems are instantiated: the JSON library above, and a
  \<open>str\<close> that writes every list or dictionary as \<open>[]\<close>.
\<close>

definition example_lib :: pylib where
  "example_lib = \<lparr>json_dumps = write_json, json_loads = read_json, py_repr = (\<lambda>v. ''[]'')\<rparr>"

definition example_store :: filesystem where
  "example_store = snd (save_scan_results example_lib empty_fs ''/data'' ''s1'' example_record)"

text \<open>
  The shape of the records that \<open>analyze_codebase\<close> stores, as far as the local
  generator depends on it: no \<open>repo_info\<close> and no \<open>gemini_analysis\<close> key, a
  summary that is a dictionary, and a list of findings whose code snippet is a string and
  whose compliance mappings are strings, when they are there at all.
\<close>

definition optional_text :: "pyval \<Rightarrow> bool" where
  "optional_text v = (case v of PStr _ \<Rightarrow> True | _ \<Rightarrow> \<not> truthy v)"

fun is_text :: "pyval \<Rightarrow> bool" where
  "is_text (PStr _) = True"
| "is_text _ = False"

definition optional_names :: "pyval \<Rightarrow> bool" where
  "optional_names v =
     (case v of PList l \<Rightarrow> list_all is_text l | PStr _ \<Rightarrow> True | PDict _ \<Rightarrow> True
      | _ \<Rightarrow> \<not> truthy v)"

definition finding_renderable :: "pyval \<Rightarrow> bool" where
  "finding_renderable f =
     (case f of
        PDict d \<Rightarrow> optional_text (dict_get d ''context_snippet'') \<and>
                   optional_names (dict_get d ''compliance'')
      | _ \<Rightarrow> False)"

definition stored_record :: "pydict \<Rightarrow> bool" where
  "stored_record r =
     (map_of r ''repo_info'' = None \<and> map_of r ''gemini_analysis'' = None \<and>
      (case map_of r ''summary'' of
         Some (PDict summary) \<Rightarrow>
           (case map_of summary ''severity_breakdown'' of
              Some (PDict _) \<Rightarrow> True | None \<Rightarrow> True | _ \<Rightarrow> False)
       | _ \<Rightarrow> False) \<and>
      (case map_of r ''findings'' of
         Some (PList l) \<Rightarrow> list_all finding_renderable l
       | _ \<Rightarrow> False))"

definition failing_model :: "string \<Rightarrow> error + string" where
  "failing_model p = Inl (ExternalError ''quota exceeded'')"

section \<open>Properties of enrichment and summary\<close>

lemma counts_get_cong:
  "key_norm a = key_norm b \<Longrightarrow> counts_get sc a = counts_get sc b"
  by (induction sc) (auto simp: key_eq_def)

lemma counts_get_set:
  "counts_get (counts_set sc k c) k' = (if key_eq k k' then c else counts_get sc k')"
  by (induction sc) (auto simp: key_eq_def)

lemma sum_counts_set:
  "sum_list (map snd (counts_set sc k c)) = sum_list (map snd sc) - counts_get sc k + c"
  by (induction sc) (auto simp: key_eq_def)

lemma keys_counts_set:
  "count_keys (counts_set sc k c) =
     (if key_norm k \<in> set (count_keys sc) then count_keys sc else count_keys sc @ [key_norm k])"
proof (induction sc)
  case Nil
  then show ?case by (simp add: count_keys_def)
next
  case (Cons p sc)
  obtain k' c' where p: "p = (k', c')" by (cases p)
  show ?case
  proof (cases "key_norm k' = key_norm k")
    case True
    then show ?thesis by (simp add: p key_eq_def count_keys_def)
  next
    case False
    then show ?thesis using Cons.IH by (auto simp add: p key_eq_def count_keys_def)
  qed
qed

lemma counts_get_absent:
  "key_norm k \<notin> set (count_keys sc) \<Longrightarrow> counts_get sc k = 0"
  by (induction sc) (auto simp: key_eq_def count_keys_def)

lemma count_severity_get:
  "counts_get (count_severity sc s) v =
     counts_get sc v + (if key_eq s v then 1 else 0)"
  using counts_get_cong [of s v sc] by (simp add: count_severity_def counts_get_set key_eq_def)

lemma count_severity_sum:
  "sum_list (map snd (count_severity sc s)) = sum_list (map snd sc) + 1"
  by (simp add: count_severity_def sum_counts_set)

lemma count_severity_keys:
  "set (count_keys (count_severity sc s)) = insert (key_norm s) (set (count_keys sc))"
  by (auto simp: count_severity_def keys_counts_set)

lemma count_severity_distinct:
  "distinct (count_keys sc) \<Longrightarrow> distinct (count_keys (count_severity sc s))"
  by (simp add: count_severity_def keys_counts_set)

lemma summary_loop_iff:
  "summary_loop F sc = Inr sc' \<longleftrightarrow>
     list_all (\<lambda>f. hashable (severity_of f)) F \<and>
     sc' = fold (\<lambda>f sc. count_severity sc (severity_of f)) F sc"
  by (induction F arbitrary: sc) (auto simp: Let_def)

lemma fold_counts_get:
  "counts_get (fold (\<lambda>f sc. count_severity sc (severity_of f)) F sc) v =
     counts_get sc v + int (length (filter (\<lambda>f. key_eq (severity_of f) v) F))"
  by (induction F arbitrary: sc) (simp_all add: count_severity_get)

lemma fold_counts_sum:
  "sum_list (map snd (fold (\<lambda>f sc. count_severity sc (severity_of f)) F sc)) =
     sum_list (map snd sc) + int (length F)"
  by (induction F arbitrary: sc) (simp_all add: count_severity_sum)

lemma fold_counts_keys:
  "set (count_keys (fold (\<lambda>f sc. count_severity sc (severity_of f)) F sc)) =
     set (count_keys sc) \<union> key_norm ` severity_of ` set F"
  by (induction F arbitrary: sc) (simp_all add: count_severity_keys)

lemma fold_counts_distinct:
  "distinct (count_keys sc) \<Longrightarrow>
   distinct (count_keys (fold (\<lambda>f sc. count_severity sc (severity_of f)) F sc))"
  by (induction F arbitrary: sc) (simp_all add: count_severity_distinct)

lemma enrich_loop_iff:
  "enrich_loop K F acc = Inr out \<longleftrightarrow>
     (\<exists>out'. out = acc @ out' \<and> list_all2 (\<lambda>f g. enrich_one K f = Inr g) F out')"
proof (induction F arbitrary: acc)
  case Nil
  then show ?case by auto
next
  case (Cons f F)
  show ?case
  proof (cases "enrich_one K f")
    case (Inl e)
    then show ?thesis by (auto simp: list_all2_Cons1)
  next
    case (Inr g)
    then show ?thesis by (auto simp: Cons.IH list_all2_Cons1)
  qed
qed

lemma map_of_rev_distinct:
  "distinct (map fst xs) \<Longrightarrow> map_of (rev xs) = map_of xs"
proof (induction xs)
  case Nil
  then show ?case by simp
next
  case (Cons p xs)
  then have "map_of xs (fst p) = None"
    by (simp add: map_of_eq_None_iff)
  then show ?case using Cons
    by (cases p) (auto simp: map_add_def fun_eq_iff split: option.splits)
qed

lemma map_of_dict_merge:
  "map_of (dict_merge a b) = map_of a ++ map_of (rev b)"
  unfolding dict_merge_def
  by (induction b arbitrary: a) (auto simp: update_conv')

lemma dict_merge_entry_wins:
  "distinct (map fst b) \<Longrightarrow> map_of b x = Some v \<Longrightarrow> map_of (dict_merge a b) x = Some v"
  by (simp add: map_of_dict_merge map_of_rev_distinct)

lemma dict_merge_other:
  "map_of b x = None \<Longrightarrow> map_of (dict_merge a b) x = map_of a x"
proof -
  assume "map_of b x = None"
  then have "map_of (rev b) x = None"
    by (simp add: map_of_eq_None_iff)
  then show ?thesis
    by (simp add: map_of_dict_merge map_add_def)
qed

lemma enrich_one_cases:
  "enrich_one K f = Inr g \<longleftrightarrow>
     (\<exists>kw entry. dict_get f ''shortform_keyword'' = PStr kw \<and> map_of K kw = Some (PDict entry) \<and>
        g = dict_merge f entry) \<or>
     (g = f \<and> hashable (dict_get f ''shortform_keyword'') \<and>
        (\<forall>kw. dict_get f ''shortform_keyword'' = PStr kw \<longrightarrow> map_of K kw = None))"
  by (cases "dict_get f ''shortform_keyword''")
     (auto simp: enrich_one_def Let_def split: option.splits pyval.splits)

lemma enrich_one_total:
  "entries_are_dicts K \<Longrightarrow> hashable (dict_get f ''shortform_keyword'') \<Longrightarrow> \<exists>g. enrich_one K f = Inr g"
  by (cases "dict_get f ''shortform_keyword''")
     (auto simp: enrich_one_def Let_def entries_are_dicts_def list_all_iff
           split: option.splits pyval.splits dest!: map_of_SomeD)

lemma open_read_exists: "open_read fs p = Inr c \<Longrightarrow> os_path_exists fs p"
  by (auto simp: open_read_def os_path_exists_def is_file_def split: if_splits option.splits)

lemma enrich_findings_present:
  "open_read fs (dict_path data_dir) = Inr c \<Longrightarrow> json_load lib c = Inr (PDict K) \<Longrightarrow>
   enrich_findings lib fs data_dir F = Inr out \<longleftrightarrow> list_all2 (\<lambda>f g. enrich_one K f = Inr g) F out"
  by (simp add: enrich_findings_def enrich_loop_iff open_read_exists)

lemma enrich_findings_absent:
  "\<not> os_path_exists fs (dict_path data_dir) \<Longrightarrow> enrich_findings lib fs data_dir F = Inr F"
  by (simp add: enrich_findings_def)

lemma enrich_all_total:
  "entries_are_dicts K \<Longrightarrow> list_all keyword_hashable F \<Longrightarrow>
   \<exists>out. list_all2 (\<lambda>f g. enrich_one K f = Inr g) F out"
proof (induction F)
  case Nil
  then show ?case by simp
next
  case (Cons f F)
  then obtain out where out: "list_all2 (\<lambda>f g. enrich_one K f = Inr g) F out"
    by auto
  from Cons.prems obtain g where "enrich_one K f = Inr g"
    using enrich_one_total [of K f] by (auto simp: keyword_hashable_def)
  with out have "list_all2 (\<lambda>f g. enrich_one K f = Inr g) (f # F) (g # out)"
    by simp
  then show ?case by blast
qed

lemma example_kb_file:
  "open_read example_fs (dict_path ''/data'') = Inr (JsonObject example_kb)"
  by code_simp

lemma example_kb_absent: "\<not> os_path_exists empty_fs (dict_path ''/data'')"
  by code_simp

text \<open>
  Claim C5. When the knowledge-base file is absent, or is read and loads as a dictionary
  whose entries are dictionaries, and every finding's \<open>shortform_keyword\<close> is hashable, enrichment
  returns a list of the same length as its input, and the element at each position comes
  from the input finding at that position: it is that finding itself, or that finding
  merged with the knowledge-base entry of its keyword. No finding is dropped, added or
  reordered.
\<close>

theorem enrich_preserves_length_and_order:
  assumes kb: "\<not> os_path_exists fs (dict_path data_dir) \<or>
               open_read fs (dict_path data_dir) = Inr c \<and> json_load lib c = Inr (PDict K) \<and>
               entries_are_dicts K"
    and F: "list_all keyword_hashable F"
  shows "\<exists>out. enrich_findings lib fs data_dir F = Inr out \<and> length out = length F \<and>
           (\<forall>i<length F.
              out ! i = F ! i \<or>
              (\<exists>kw entry. dict_get (F ! i) ''shortform_keyword'' = PStr kw \<and>
                 map_of K kw = Some (PDict entry) \<and> out ! i = dict_merge (F ! i) entry))"
proof (cases "os_path_exists fs (dict_path data_dir)")
  case False
  then show ?thesis by (simp add: enrich_findings_absent)
next
  case True
  with kb have kbfile: "open_read fs (dict_path data_dir) = Inr c"
    and loaded: "json_load lib c = Inr (PDict K)" and K: "entries_are_dicts K"
    by auto
  from enrich_all_total [OF K F] obtain out
    where out: "list_all2 (\<lambda>f g. enrich_one K f = Inr g) F out" by blast
  have len: "length out = length F"
    using out by (simp add: list_all2_lengthD)
  have "out ! i = F ! i \<or>
        (\<exists>kw entry. dict_get (F ! i) ''shortform_keyword'' = PStr kw \<and>
           map_of K kw = Some (PDict entry) \<and> out ! i = dict_merge (F ! i) entry)"
    if "i < length F" for i
  proof -
    have "enrich_one K (F ! i) = Inr (out ! i)"
      using list_all2_nthD [OF out that] by simp
    then show ?thesis
      by (auto simp: enrich_one_cases)
  qed
  with len out show ?thesis
    by (auto simp: enrich_findings_present [OF kbfile loaded])
qed

theorem enrich_preserves_length_and_order_witness:
  "list_all keyword_hashable example_findings \<and> entries_are_dicts example_kb \<and>
   open_read example_fs (dict_path ''/data'') = Inr (JsonObject example_kb) \<and>
   json_load example_lib (JsonObject example_kb) = Inr (PDict example_kb) \<and>
   (\<exists>out. enrich_findings example_lib example_fs ''/data'' example_findings = Inr out \<and>
      length out = length example_findings \<and>
      (\<forall>i<length example_findings.
         out ! i = example_findings ! i \<or>
         (\<exists>kw entry. dict_get (example_findings ! i) ''shortform_keyword'' = PStr kw \<and>
            map_of example_kb kw = Some (PDict entry) \<and>
            out ! i = dict_merge (example_findings ! i) entry)))"
proof -
  have kbfile: "open_read example_fs (dict_path ''/data'') = Inr (JsonObject example_kb)"
    by (rule example_kb_file)
  have loaded: "json_load example_lib (JsonObject example_kb) = Inr (PDict example_kb)"
    by simp
  have K: "entries_are_dicts example_kb"
    by (simp add: entries_are_dicts_def example_kb_def)
  have F: "list_all keyword_hashable example_findings"
    by (simp add: keyword_hashable_def example_findings_def dict_get_def dict_get_default_def)
  from enrich_preserves_length_and_order [where fs = example_fs and data_dir = "''/data''" and
      K = example_kb and F = example_findings and lib = example_lib and
      c = "JsonObject example_kb"]
    kbfile loaded K F show ?thesis by blast
qed

lemma enrich_one_miss: "no_kb_entry K f \<Longrightarrow> enrich_one K f = Inr f"
  by (cases "dict_get f ''shortform_keyword''")
     (auto simp: no_kb_entry_def enrich_one_def)

lemma example_kb_entries: "entries_are_dicts example_kb"
  by (simp add: entries_are_dicts_def example_kb_def)

lemma example_findings_hashable: "list_all keyword_hashable example_findings"
  by (simp add: keyword_hashable_def example_findings_def dict_get_def dict_get_default_def)

text \<open>
  Claim C6. When the knowledge-base file is absent, enrichment returns its input list as it
  is, whatever the findings are. When the file loads as a dictionary (with dictionary entries
  and hashable keywords, so that no TypeError is raised), enrichment succeeds and every
  finding whose \<open>shortform_keyword\<close> is missing or has no entry in the dictionary
  comes out exactly as it went in.
\<close>

theorem enrich_pass_through:
  "(\<not> os_path_exists fs (dict_path data_dir) \<longrightarrow> enrich_findings lib fs data_dir F = Inr F) \<and>
   (open_read fs (dict_path data_dir) = Inr c \<and> json_load lib c = Inr (PDict K) \<and>
    entries_are_dicts K \<and> list_all keyword_hashable F \<longrightarrow>
      (\<exists>out. enrich_findings lib fs data_dir F = Inr out \<and> length out = length F \<and>
         (\<forall>i<length F. no_kb_entry K (F ! i) \<longrightarrow> out ! i = F ! i)))"
proof (intro conjI impI)
  assume "\<not> os_path_exists fs (dict_path data_dir)"
  then show "enrich_findings lib fs data_dir F = Inr F"
    by (rule enrich_findings_absent)
next
  assume a: "open_read fs (dict_path data_dir) = Inr c \<and> json_load lib c = Inr (PDict K) \<and>
             entries_are_dicts K \<and> list_all keyword_hashable F"
  then have kbfile: "open_read fs (dict_path data_dir) = Inr c"
    and loaded: "json_load lib c = Inr (PDict K)"
    by simp_all
  from a obtain out where out: "list_all2 (\<lambda>f g. enrich_one K f = Inr g) F out"
    using enrich_all_total [of K F] by blast
  have "out ! i = F ! i" if "i < length F" "no_kb_entry K (F ! i)" for i
    using list_all2_nthD [OF out that(1)] enrich_one_miss [OF that(2)] by simp
  with out show "\<exists>out. enrich_findings lib fs data_dir F = Inr out \<and> length out = length F \<and>
         (\<forall>i<length F. no_kb_entry K (F ! i) \<longrightarrow> out ! i = F ! i)"
    by (auto simp: enrich_findings_present [OF kbfile loaded] list_all2_lengthD)
qed

theorem enrich_pass_through_witness:
  "\<not> os_path_exists empty_fs (dict_path ''/data'') \<and>
   enrich_findings example_lib empty_fs ''/data'' example_findings = Inr example_findings \<and>
   open_read example_fs (dict_path ''/data'') = Inr (JsonObject example_kb) \<and>
   json_load example_lib (JsonObject example_kb) = Inr (PDict example_kb) \<and>
   entries_are_dicts example_kb \<and> list_all keyword_hashable example_findings \<and>
   no_kb_entry example_kb (example_findings ! 1) \<and>
   (\<exists>out. enrich_findings example_lib example_fs ''/data'' example_findings = Inr out \<and>
      length out = length example_findings \<and> out ! 1 = example_findings ! 1)"
proof -
  have absent: "\<not> os_path_exists empty_fs (dict_path ''/data'')"
    by (rule example_kb_absent)
  have loaded: "json_load example_lib (JsonObject example_kb) = Inr (PDict example_kb)"
    by simp
  have miss: "no_kb_entry example_kb (example_findings ! 1)"
    by (simp add: no_kb_entry_def example_kb_def example_findings_def dict_get_def
          dict_get_default_def)
  have len: "1 < length example_findings"
    by (simp add: example_findings_def)
  from enrich_pass_through [where fs = empty_fs and data_dir = "''/data''" and
      F = example_findings and K = example_kb and lib = example_lib] absent
  have "enrich_findings example_lib empty_fs ''/data'' example_findings = Inr example_findings"
    by blast
  moreover
  from enrich_pass_through [where fs = example_fs and data_dir = "''/data''" and
      F = example_findings and K = example_kb and lib = example_lib and
      c = "JsonObject example_kb"]
    example_kb_file loaded example_kb_entries example_findings_hashable miss len
  have "\<exists>out. enrich_findings example_lib example_fs ''/data'' example_findings = Inr out \<and>
      length out = length example_findings \<and> out ! 1 = example_findings ! 1"
    by blast
  ultimately show ?thesis
    using absent example_kb_file loaded example_kb_entries example_findings_hashable miss
    by blast
qed

text \<open>
  Claim C1 as stated does not hold: \<open>{**finding, **findings_dict[keyword]}\<close> stores
  the entry's items after the finding's, so where both define a field the entry's value
  replaces the finding's. Here the finding has severity LOW, the entry has severity HIGH,
  and the enriched finding has severity HIGH.
\<close>

theorem enrich_finding_precedence_counterexample:
  "enrich_findings example_lib example_fs ''/data'' example_findings =
     Inr [[(''shortform_keyword'', PStr ''SQLI''), (''severity'', PStr ''HIGH''),
           (''line_number'', PInt 7), (''title'', PStr ''SQL injection'')],
          [(''shortform_keyword'', PStr ''XSS'')],
          [(''file_path'', PStr ''a.py'')]] \<and>
   dict_get (example_findings ! 0) ''severity'' = PStr ''LOW'' \<and>
   map_of example_kb ''SQLI'' =
     Some (PDict [(''title'', PStr ''SQL injection''), (''severity'', PStr ''HIGH'')])"
proof -
  have "json_load example_lib (JsonObject example_kb) = Inr (PDict example_kb)"
    by simp
  then have "enrich_findings example_lib example_fs ''/data'' example_findings =
      enrich_loop example_kb example_findings []"
    using example_kb_file open_read_exists [OF example_kb_file]
    by (simp add: enrich_findings_def)
  then show ?thesis
    by (simp add: example_kb_def example_findings_def enrich_one_def dict_get_def
          dict_get_default_def dict_merge_def)
qed

text \<open>
  Claim C1, amended. For every finding whose \<open>shortform_keyword\<close> has an entry in
  the knowledge base and every field \<open>x\<close> that the entry defines (so in particular
  every field defined by both the finding and the entry), the enriched finding's value for
  \<open>x\<close> is the entry's value: knowledge-base fields take precedence in the merge.
\<close>

theorem enrich_kb_fields_take_precedence:
  assumes "open_read fs (dict_path data_dir) = Inr c"
    and "json_load lib c = Inr (PDict K)"
    and "enrich_findings lib fs data_dir F = Inr out"
    and "i < length F"
    and "dict_get (F ! i) ''shortform_keyword'' = PStr kw"
    and "map_of K kw = Some (PDict entry)"
    and "distinct (map fst entry)"
    and "map_of entry x = Some v"
  shows "map_of (out ! i) x = Some v"
proof -
  from assms(3) have "list_all2 (\<lambda>f g. enrich_one K f = Inr g) F out"
    by (simp add: enrich_findings_present [OF assms(1,2)])
  from list_all2_nthD [OF this assms(4)] have "enrich_one K (F ! i) = Inr (out ! i)"
    by simp
  with assms(5,6) have "out ! i = dict_merge (F ! i) entry"
    by (simp add: enrich_one_def)
  with assms(7,8) show ?thesis
    by (simp add: dict_merge_entry_wins)
qed

theorem enrich_kb_fields_take_precedence_witness:
  "open_read example_fs (dict_path ''/data'') = Inr (JsonObject example_kb) \<and>
   json_load example_lib (JsonObject example_kb) = Inr (PDict example_kb) \<and>
   (\<exists>out. enrich_findings example_lib example_fs ''/data'' example_findings = Inr out \<and>
      0 < length example_findings \<and>
      dict_get (example_findings ! 0) ''shortform_keyword'' = PStr ''SQLI'' \<and>
      map_of example_kb ''SQLI'' =
        Some (PDict [(''title'', PStr ''SQL injection''), (''severity'', PStr ''HIGH'')]) \<and>
      map_of (example_findings ! 0) ''severity'' = Some (PStr ''LOW'') \<and>
      map_of (out ! 0) ''severity'' = Some (PStr ''HIGH''))"
proof -
  have loaded: "json_load example_lib (JsonObject example_kb) = Inr (PDict example_kb)"
    by simp
  obtain out where out: "enrich_findings example_lib example_fs ''/data'' example_findings = Inr out"
    using enrich_all_total [OF example_kb_entries example_findings_hashable]
    by (auto simp: enrich_findings_present [OF example_kb_file loaded, symmetric])
  have len: "0 < length example_findings"
    by (simp add: example_findings_def)
  have kw: "dict_get (example_findings ! 0) ''shortform_keyword'' = PStr ''SQLI''"
    by (simp add: example_findings_def dict_get_def dict_get_default_def)
  have entry: "map_of example_kb ''SQLI'' =
      Some (PDict [(''title'', PStr ''SQL injection''), (''severity'', PStr ''HIGH'')])"
    by (simp add: example_kb_def)
  have low: "map_of (example_findings ! 0) ''severity'' = Some (PStr ''LOW'')"
    by (simp add: example_findings_def)
  have "map_of (out ! 0) ''severity'' = Some (PStr ''HIGH'')"
    by (rule enrich_kb_fields_take_precedence [OF example_kb_file loaded out len kw entry])
      simp_all
  with out len kw entry low example_kb_file loaded show ?thesis by blast
qed

lemma generate_summary_iff:
  "generate_summary F = Inr s \<longleftrightarrow>
     list_all severity_hashable F \<and>
     s = \<lparr>total_findings = int (length F),
          severity_breakdown = fold (\<lambda>f sc. count_severity sc (severity_of f)) F []\<rparr>"
proof (cases "summary_loop F []")
  case (Inl e)
  then have "\<not> list_all (\<lambda>f. hashable (severity_of f)) F"
    using summary_loop_iff [of F "[]"] by auto
  with Inl show ?thesis
    by (auto simp: generate_summary_def severity_hashable_def [abs_def])
next
  case (Inr sc)
  then show ?thesis
    using summary_loop_iff [of F "[]" sc]
    by (auto simp: generate_summary_def severity_hashable_def [abs_def])
qed



lemma example_severities_hashable: "list_all severity_hashable example_severities"
  by (simp add: severity_hashable_def example_severities_def severity_of_def dict_get_default_def)


lemma severity_key_unique:
  assumes "distinct (count_keys sb)" "key_norm v \<in> set (count_keys sb)"
  shows "length (filter (\<lambda>(k, c). key_eq k v) sb) = 1"
  using assms
proof (induction sb)
  case Nil
  then show ?case by (simp add: count_keys_def)
next
  case (Cons p sb)
  obtain k c where p: "p = (k, c)" by (cases p)
  show ?case
  proof (cases "key_norm k = key_norm v")
    case True
    with Cons.prems(1) have "key_norm v \<notin> set (count_keys sb)"
      by (simp add: p count_keys_def)
    then have "filter (\<lambda>(k, c). key_eq k v) sb = []"
      by (force simp: filter_empty_conv count_keys_def key_eq_def image_iff)
    with True show ?thesis by (simp add: p key_eq_def)
  next
    case False
    with Cons.prems have "distinct (count_keys sb)" "key_norm v \<in> set (count_keys sb)"
      by (auto simp: p count_keys_def)
    with Cons.IH False show ?thesis by (simp add: p key_eq_def)
  qed
qed

text \<open>
  Claim C10. For every findings list \<open>F\<close> whose severities are hashable,
  \<open>total_findings\<close> is the length of \<open>F\<close> and the counts of the severity breakdown
  add up to it; no severity has two keys, and every finding of \<open>F\<close> has exactly one
  entry of the breakdown under its severity, whose count is the number of findings of
  \<open>F\<close> with that severity: every finding is counted under exactly one key.
\<close>

theorem severity_counts_sum_to_total:
  assumes "list_all severity_hashable F"
  shows "\<exists>s. generate_summary F = Inr s \<and>
           total_findings s = int (length F) \<and>
           sum_list (map snd (severity_breakdown s)) = total_findings s \<and>
           sum_list (map snd (severity_breakdown s)) = int (length F) \<and>
           distinct (count_keys (severity_breakdown s)) \<and>
           (\<forall>f \<in> set F.
              length (filter (\<lambda>(k, c). key_eq k (severity_of f)) (severity_breakdown s)) = 1 \<and>
              counts_get (severity_breakdown s) (severity_of f) =
                int (length (filter (\<lambda>g. key_eq (severity_of g) (severity_of f)) F)) \<and>
              1 \<le> counts_get (severity_breakdown s) (severity_of f))"
proof -
  let ?sb = "fold (\<lambda>f sc. count_severity sc (severity_of f)) F []"
  have s: "generate_summary F = Inr \<lparr>total_findings = int (length F), severity_breakdown = ?sb\<rparr>"
    using assms by (simp add: generate_summary_iff)
  have total: "sum_list (map snd ?sb) = int (length F)"
    by (simp add: fold_counts_sum)
  have dist: "distinct (count_keys ?sb)"
    by (rule fold_counts_distinct) (simp add: count_keys_def)
  have each: "length (filter (\<lambda>(k, c). key_eq k (severity_of f)) ?sb) = 1 \<and>
              counts_get ?sb (severity_of f) =
                int (length (filter (\<lambda>g. key_eq (severity_of g) (severity_of f)) F)) \<and>
              1 \<le> counts_get ?sb (severity_of f)"
    if f: "f \<in> set F" for f
  proof -
    have "key_norm (severity_of f) \<in> set (count_keys ?sb)"
      using f by (simp add: fold_counts_keys)
    then have 1: "length (filter (\<lambda>(k, c). key_eq k (severity_of f)) ?sb) = 1"
      by (rule severity_key_unique [OF dist])
    have 2: "counts_get ?sb (severity_of f) =
                int (length (filter (\<lambda>g. key_eq (severity_of g) (severity_of f)) F))"
      by (simp add: fold_counts_get)
    have "filter (\<lambda>g. key_eq (severity_of g) (severity_of f)) F \<noteq> []"
      using f by (auto simp: filter_empty_conv key_eq_def)
    then have "1 \<le> length (filter (\<lambda>g. key_eq (severity_of g) (severity_of f)) F)"
      by (cases "filter (\<lambda>g. key_eq (severity_of g) (severity_of f)) F") simp_all
    then have 3: "1 \<le> counts_get ?sb (severity_of f)"
      by (simp only: 2)
    from 1 2 3 show ?thesis by (intro conjI)
  qed
  let ?s = "\<lparr>total_findings = int (length F), severity_breakdown = ?sb\<rparr>"
  have sel: "total_findings ?s = int (length F)" "severity_breakdown ?s = ?sb"
    by simp_all
  have "generate_summary F = Inr ?s \<and>
           total_findings ?s = int (length F) \<and>
           sum_list (map snd (severity_breakdown ?s)) = total_findings ?s \<and>
           sum_list (map snd (severity_breakdown ?s)) = int (length F) \<and>
           distinct (count_keys (severity_breakdown ?s)) \<and>
           (\<forall>f \<in> set F.
              length (filter (\<lambda>(k, c). key_eq k (severity_of f)) (severity_breakdown ?s)) = 1 \<and>
              counts_get (severity_breakdown ?s) (severity_of f) =
                int (length (filter (\<lambda>g. key_eq (severity_of g) (severity_of f)) F)) \<and>
              1 \<le> counts_get (severity_breakdown ?s) (severity_of f))"
    unfolding sel using s total dist each by blast
  then show ?thesis by (rule exI)
qed

theorem severity_counts_sum_to_total_witness:
  "list_all severity_hashable example_severities \<and>
   (\<exists>s. generate_summary example_severities = Inr s \<and>
      total_findings s = 4 \<and>
      sum_list (map snd (severity_breakdown s)) = 4 \<and>
      distinct (count_keys (severity_breakdown s)) \<and>
      length (filter (\<lambda>(k, c). key_eq k (severity_of (example_severities ! 1))) (severity_breakdown s)) = 1 \<and>
      counts_get (severity_breakdown s) (severity_of (example_severities ! 0)) = 2)"
proof -
  from severity_counts_sum_to_total [OF example_severities_hashable] obtain s where
    s: "generate_summary example_severities = Inr s"
       "total_findings s = int (length example_severities)"
       "sum_list (map snd (severity_breakdown s)) = int (length example_severities)"
       "distinct (count_keys (severity_breakdown s))"
    and each: "\<forall>f \<in> set example_severities.
              length (filter (\<lambda>(k, c). key_eq k (severity_of f)) (severity_breakdown s)) = 1 \<and>
              counts_get (severity_breakdown s) (severity_of f) =
                int (length (filter (\<lambda>g. key_eq (severity_of g) (severity_of f)) example_severities)) \<and>
              1 \<le> counts_get (severity_breakdown s) (severity_of f)"
    by blast
  have len: "length example_severities = 4"
    by (simp add: example_severities_def)
  have m1: "example_severities ! 1 \<in> set example_severities"
    and m0: "example_severities ! 0 \<in> set example_severities"
    by (simp_all add: len)
  have c0: "length (filter (\<lambda>g. key_eq (severity_of g) (severity_of (example_severities ! 0)))
              example_severities) = 2"
    by (simp add: example_severities_def severity_of_def dict_get_default_def key_eq_def)
  from each m1 have u: "length (filter (\<lambda>(k, c). key_eq k (severity_of (example_severities ! 1)))
      (severity_breakdown s)) = 1"
    by blast
  from each m0 c0 have c: "counts_get (severity_breakdown s) (severity_of (example_severities ! 0)) = 2"
    by simp
  from s len u c example_severities_hashable show ?thesis by auto
qed

section \<open>The JSON library reads what it writes\<close>

text \<open>
  For every proper value, the parser returns the value from its written text and stops
  right behind it, whatever follows (for a number, anything but a digit).
\<close>

lemma read_string_quote: "read_string acc (quote # rest) = Some (acc, rest)"
  by (cases rest) simp_all

lemma backslash_not_quote [simp]: "backslash \<noteq> quote"
  by (simp add: quote_def backslash_def)

lemma read_string_backslash:
  "read_string acc (backslash # c # rest) = read_string (acc @ [c]) rest"
  by simp

lemma read_string_plain:
  "c \<noteq> quote \<Longrightarrow> c \<noteq> backslash \<Longrightarrow> t \<noteq> [] \<Longrightarrow>
   read_string acc (c # t) = read_string (acc @ [c]) t"
  by (cases t) simp_all

lemma read_string_escape:
  "read_string acc (escape_json s @ quote # rest) = Some (acc @ s, rest)"
proof (induction s arbitrary: acc)
  case Nil
  show ?case by (simp add: read_string_quote)
next
  case (Cons c cs)
  show ?case
  proof (cases "c = quote \<or> c = backslash")
    case True
    then show ?thesis
      using Cons [of "acc @ [c]"] by (simp add: read_string_backslash)
  next
    case False
    then show ?thesis
      using Cons [of "acc @ [c]"] by (simp add: read_string_plain)
  qed
qed

lemma read_written_string:
  "read_string [] (drop 1 (write_string s @ rest)) = Some (s, rest)"
  using read_string_escape [of "[]" s rest] by (simp add: write_string_def)

lemma digit_char: "d < 10 \<Longrightarrow> is_digit (char_of (48 + d)) \<and> of_char (char_of (48 + d :: nat)) - 48 = d"
  by (simp add: is_digit_def)

lemma str_nat_digits: "list_all is_digit (str_nat n) \<and> str_nat n \<noteq> []"
proof (induction n rule: str_nat.induct)
  case (1 n)
  show ?case
  proof (cases "n < 10")
    case True
    then show ?thesis using digit_char [of n] by (subst str_nat.simps, subst str_nat.simps) simp
  next
    case False
    with 1 digit_char [of "n mod 10"] show ?thesis
      by (subst str_nat.simps, subst (2) str_nat.simps) simp
  qed
qed

lemma digits_value_snoc:
  "digits_value (ds @ [c]) = 10 * digits_value ds + ((of_char c :: nat) - 48)"
  by (simp add: digits_value_def)

lemma digits_value_str_nat: "digits_value (str_nat n) = n"
proof (induction n rule: str_nat.induct)
  case (1 n)
  show ?case
  proof (cases "n < 10")
    case True
    then show ?thesis using digit_char [of n]
      by (subst str_nat.simps) (simp add: digits_value_def)
  next
    case False
    with 1 digit_char [of "n mod 10"] show ?thesis
      by (subst str_nat.simps) (simp add: digits_value_snoc)
  qed
qed

lemma read_nat_str_nat:
  assumes "clean rest"
  shows "read_nat (str_nat n @ rest) = Some (n, rest)"
proof -
  from str_nat_digits [of n] have d: "\<forall>c \<in> set (str_nat n). is_digit c" and ne: "str_nat n \<noteq> []"
    by (simp_all add: list_all_iff)
  from assms have t: "takeWhile is_digit rest = []" and dr: "dropWhile is_digit rest = rest"
    by (cases rest; simp add: clean_def)+
  from d have "takeWhile is_digit (str_nat n @ rest) = str_nat n"
    by (simp add: t)
  moreover from d have "dropWhile is_digit (str_nat n @ rest) = rest"
    by (simp add: dr)
  ultimately show ?thesis
    using ne by (simp add: read_nat_def digits_value_str_nat)
qed

lemma str_nat_first: "\<exists>c t. str_nat n = c # t \<and> is_digit c"
  using str_nat_digits [of n] by (cases "str_nat n") simp_all

lemma read_number_str_int:
  assumes "clean rest"
  shows "read_number (str_int i @ rest) = Some (PInt i, rest)"
proof (cases "i < 0")
  case True
  then show ?thesis
    by (simp add: read_number_def str_int_def read_nat_str_nat [OF assms])
next
  case False
  obtain c t where ct: "str_nat (nat i) = c # t" "is_digit c"
    using str_nat_first by blast
  then have "c \<noteq> CHR ''-''" by (auto simp: is_digit_def)
  with False ct(1) read_nat_str_nat [OF assms, of "nat i"] show ?thesis
    by (simp add: read_number_def str_int_def)
qed

lemma write_value_first:
  "\<exists>c t. write_value v = c # t \<and> c \<noteq> CHR '']''"
proof (cases v)
  case (PInt i)
  obtain c t where ct: "str_nat (nat i) = c # t" "is_digit c"
    using str_nat_first by blast
  obtain c' t' where ct': "str_nat (nat (- i)) = c' # t'"
    using str_nat_first by blast
  from ct have "c \<noteq> CHR '']''" by (auto simp: is_digit_def)
  with PInt ct ct' show ?thesis by (simp add: str_int_def)
next
  case (PList l)
  then show ?thesis by (cases l) simp_all
next
  case (PDict l)
  then show ?thesis by (cases l) simp_all
qed (simp_all add: write_string_def quote_def)

lemma write_members_first:
  assumes "ms \<noteq> []"
  shows "\<exists>t. write_members ms = quote # t"
proof (cases ms)
  case Nil
  with assms show ?thesis by simp
next
  case (Cons m ms')
  obtain k v where "m = (k, v)" by (cases m)
  with Cons show ?thesis by (cases ms') (simp_all add: write_string_def)
qed

lemma read_value_atoms:
  "read_value (Suc n) (''null'' @ rest) = Some (PNone, rest)"
  "read_value (Suc n) (''true'' @ rest) = Some (PBool True, rest)"
  "read_value (Suc n) (''false'' @ rest) = Some (PBool False, rest)"
  "read_value (Suc n) (''[]'' @ rest) = Some (PList [], rest)"
  "read_value (Suc n) (''{}'' @ rest) = Some (PDict [], rest)"
  by (simp_all add: startswith_def quote_def)

lemma read_value_string:
  "read_value (Suc n) (write_string s @ rest) = Some (PStr s, rest)"
  using read_written_string [of s rest]
  by (simp add: startswith_def write_string_def quote_def)

lemma read_value_number:
  assumes "clean rest"
  shows "read_value (Suc n) (str_int i @ rest) = Some (PInt i, rest)"
proof -
  obtain c t where ct: "str_int i = c # t" "c = CHR ''-'' \<or> is_digit c"
    using str_nat_first [of "nat i"] str_nat_first [of "nat (- i)"]
    by (cases "i < 0") (auto simp: str_int_def)
  then have "read_value (Suc n) (str_int i @ rest) = read_number (str_int i @ rest)"
    by (auto simp: startswith_def quote_def is_digit_def)
  then show ?thesis by (simp add: read_number_str_int [OF assms])
qed

lemma read_value_list:
  assumes "write_items vs = c # t" "c \<noteq> CHR '']''"
  shows "read_value (Suc n) (CHR ''['' # write_items vs @ rest) =
           map_option (\<lambda>(vs, rest). (PList vs, rest)) (read_items n (write_items vs @ rest))"
  using assms by (simp add: startswith_def quote_def)

lemma read_value_dict:
  assumes "write_members ms = quote # t"
  shows "read_value (Suc n) (CHR ''{'' # write_members ms @ rest) =
           map_option (\<lambda>(ms, rest). (PDict (fold (\<lambda>(k, v). AList.update k v) ms []), rest))
             (read_members n (write_members ms @ rest))"
  using assms by (simp add: startswith_def quote_def)

lemma update_fresh: "k \<notin> fst ` set acc \<Longrightarrow> AList.update k v acc = acc @ [(k, v)]"
  by (induction acc) auto

lemma fold_update_distinct:
  "distinct (map fst (acc @ ms)) \<Longrightarrow> fold (\<lambda>(k, v). AList.update k v) ms acc = acc @ ms"
proof (induction ms arbitrary: acc)
  case Nil
  then show ?case by simp
next
  case (Cons m ms)
  obtain k v where m: "m = (k, v)" by (cases m)
  from Cons.prems have "k \<notin> fst ` set acc" by (auto simp: m)
  then have u: "AList.update k v acc = acc @ [(k, v)]" by (rule update_fresh)
  from Cons.prems have "distinct (map fst ((acc @ [(k, v)]) @ ms))" by (simp add: m)
  from Cons.IH [OF this] show ?case by (simp add: m u)
qed

lemma clean_simps [simp]:
  "clean []" "clean (CHR '']'' # t)" "clean (CHR '','' # t)" "clean (CHR ''}'' # t)"
  by (simp_all add: clean_def is_digit_def)

lemma read_written:
  "proper_value v \<Longrightarrow> length (write_value v) \<le> n \<Longrightarrow> clean rest \<Longrightarrow>
     read_value n (write_value v @ rest) = Some (v, rest)"
  "vs \<noteq> [] \<Longrightarrow> proper_items vs \<Longrightarrow> length (write_items vs) \<le> n \<Longrightarrow>
     read_items n (write_items vs @ rest) = Some (vs, rest)"
  "ms \<noteq> [] \<Longrightarrow> proper_members ms \<Longrightarrow> length (write_members ms) \<le> n \<Longrightarrow>
     read_members n (write_members ms @ rest) = Some (ms, rest)"
proof (induction v and vs and ms arbitrary: n rest and n rest and n rest
    rule: write_value_write_items_write_members.induct)
  case 1
  then show ?case using read_value_atoms(1) [of "n - 1" rest] by (cases n) simp_all
next
  case (2 b)
  then show ?case
    using read_value_atoms(2) [of "n - 1" rest] read_value_atoms(3) [of "n - 1" rest]
    by (cases n) (simp_all split: if_splits)
next
  case (3 i)
  obtain c t where "str_int i = c # t"
    using str_nat_first [of "nat i"] str_nat_first [of "nat (- i)"]
    by (cases "i < 0") (auto simp: str_int_def)
  with 3 obtain m where "n = Suc m" by (cases n) simp_all
  with 3 show ?case by (simp add: read_value_number del: read_value.simps)
next
  case (4 s)
  then obtain m where "n = Suc m" by (cases n) (simp_all add: write_string_def)
  then show ?case by (simp add: read_value_string del: read_value.simps)
next
  case 5
  then show ?case using read_value_atoms(4) [of "n - 1" rest] by (cases n) simp_all
next
  case (6 v vs)
  from "6.prems"(2) obtain m where n: "n = Suc m" "length (write_items (v # vs)) \<le> m"
    by (cases n) simp_all
  obtain c t where ct: "write_value v = c # t" "c \<noteq> CHR '']''"
    using write_value_first by blast
  then have first: "write_items (v # vs) = c # (tl (write_items (v # vs)))"
    by (cases vs) simp_all
  from "6.prems"(1) have "proper_items (v # vs)" by simp
  from "6.IH" [OF _ this n(2), of rest]
  have "read_items m (write_items (v # vs) @ rest) = Some (v # vs, rest)" by simp
  with read_value_list [OF first ct(2), of m rest] show ?case
    by (simp add: n(1) del: read_value.simps)
next
  case 7
  then show ?case using read_value_atoms(5) [of "n - 1" rest] by (cases n) simp_all
next
  case (8 m ms)
  from "8.prems"(2) obtain k where n: "n = Suc k" "length (write_members (m # ms)) \<le> k"
    by (cases n) simp_all
  obtain t where first: "write_members (m # ms) = quote # t"
    using write_members_first [of "m # ms"] by auto
  from "8.prems"(1) have p: "proper_members (m # ms)" and d: "distinct (map fst (m # ms))" by simp_all
  from "8.IH" [OF _ p n(2), of rest]
  have "read_members k (write_members (m # ms) @ rest) = Some (m # ms, rest)" by simp
  moreover from d have "fold (\<lambda>(k, v). AList.update k v) (m # ms) [] = m # ms"
    using fold_update_distinct [of "[]" "m # ms"] by simp
  ultimately show ?case
    using read_value_dict [OF first, of k rest] by (simp add: n(1) del: read_value.simps)
next
  case 9
  then show ?case by simp
next
  case (10 v)
  from "10.prems"(3) obtain m where n: "n = Suc m" "length (write_value v) \<le> m"
    by (cases n) simp_all
  from "10.prems"(2) have "proper_value v" by simp
  from "10.IH" [OF this n(2), of "CHR '']'' # rest"]
  show ?case by (simp add: n(1) startswith_def del: read_value.simps)
next
  case (11 v w vs)
  from "11.prems"(3) obtain m where n: "n = Suc m" "length (write_value v) \<le> m"
      "length (write_items (w # vs)) \<le> m"
    by (cases n) simp_all
  from "11.prems"(2) have pv: "proper_value v" and pi: "proper_items (w # vs)" by simp_all
  from "11.IH"(1) [OF pv n(2), of "CHR '','' # write_items (w # vs) @ rest"]
    "11.IH"(2) [OF _ pi n(3), of rest]
  show ?case by (simp add: n(1) startswith_def del: read_value.simps)
next
  case 12
  then show ?case by simp
next
  case (13 k v)
  from "13.prems"(3) obtain m where n: "n = Suc m" "length (write_value v) \<le> m"
    by (cases n) simp_all
  from "13.prems"(2) have pv: "proper_value v" by simp
  from "13.IH" [OF pv n(2), of "CHR ''}'' # rest"]
    read_written_string [of k "CHR '':'' # write_value v @ CHR ''}'' # rest"]
  show ?case by (simp add: n(1) startswith_def write_string_def del: read_value.simps)
next
  case (14 k v m ms)
  from "14.prems"(3) obtain j where n: "n = Suc j" "length (write_value v) \<le> j"
      "length (write_members (m # ms)) \<le> j"
    by (cases n) simp_all
  from "14.prems"(2) have pv: "proper_value v" and pm: "proper_members (m # ms)" by simp_all
  from "14.IH"(1) [OF pv n(2), of "CHR '','' # write_members (m # ms) @ rest"]
    "14.IH"(2) [OF _ pm n(3), of rest]
    read_written_string [of k "CHR '':'' # write_value v @ CHR '','' # write_members (m # ms) @ rest"]
  show ?case by (simp add: n(1) startswith_def write_string_def del: read_value.simps)
qed

lemma read_write_json:
  assumes "proper_value (PDict d)"
  shows "read_json (write_json d) = Inr (PDict d)"
  using read_written(1) [of "PDict d" "Suc (length (write_value (PDict d)))" "[]"] assms
  by (simp add: read_json_def write_json_def del: read_value.simps write_value.simps proper_value.simps)

lemma example_record_proper: "proper_value (PDict example_record)"
  by (simp add: example_record_def)

section \<open>Properties of the report service\<close>

lemma format_example:
  "format_paragraphs (split_blank_lines [] (''# Title'' @ [newline, newline] @ ''Some text'')) [] =
     Inr [Heading ''Title'' 1, Paragraph ''Some text'']"
  by code_simp

text \<open>
  Where the formatter and the count of leading markers agree: a block whose markers are
  all at its front (at most nine) becomes a heading of that level, with the markers and
  the surrounding whitespace removed.
\<close>

lemma count_char_leading:
  "c \<notin> set (dropWhile (\<lambda>x. x = c) s) \<Longrightarrow>
   count_char c s = length (takeWhile (\<lambda>x. x = c) s)"
  by (induction s) (auto simp: count_char_def filter_empty_conv)

lemma strip_char_leading:
  assumes "c \<notin> set (dropWhile (\<lambda>x. x = c) s)"
  shows "strip_char c s = dropWhile (\<lambda>x. x = c) s"
proof -
  let ?r = "dropWhile (\<lambda>x. x = c) s"
  have "dropWhile (\<lambda>x. x = c) (rev ?r) = rev ?r"
  proof (cases "rev ?r")
    case Nil
    then have "?r = []" by simp
    then show ?thesis by (simp only: rev.simps dropWhile.simps)
  next
    case (Cons a as)
    then have "a \<in> set ?r" by (metis list.set_intros(1) set_rev)
    with assms have "a \<noteq> c" by auto
    with Cons show ?thesis by simp
  qed
  then show ?thesis by (simp add: strip_char_def strip_with_def)
qed

lemma heading_without_inner_markers:
  assumes "startswith paragraph ''#''" "py_strip paragraph \<noteq> []"
    and "CHR ''#'' \<notin> set (dropWhile (\<lambda>x. x = CHR ''#'') paragraph)"
    and "leading_markers paragraph \<le> 9"
  shows "format_paragraphs [paragraph] doc =
           Inr (doc @ [Heading (py_strip (dropWhile (\<lambda>x. x = CHR ''#'') paragraph))
                         (leading_markers paragraph)])"
  using assms
  by (simp add: count_char_leading strip_char_leading leading_markers_def add_heading_def)

text \<open>
  Claim C2 says that a block starting with marker characters becomes a heading whose
  level is the number of its leading markers. The formatter takes \<open>paragraph.count('#')\<close>,
  the number of markers anywhere in the block: the block \<open># C# notes\<close> has one leading
  marker and becomes a heading of level 2.
\<close>

theorem heading_level_counts_every_marker:
  "format_paragraphs (split_blank_lines [] ''# C# notes'') [] = Inr [Heading ''C# notes'' 2] \<and>
   leading_markers ''# C# notes'' = 1"
  by code_simp

section \<open>The scan record store\<close>

lemma bind_result_simps [simp]:
  "bind_result (Inl e) f = Inl e"
  "bind_result (Inr x) f = f x"
  by (simp_all add: bind_result_def)

















lemma open_write_success:
  assumes "open_write fs p c = Inr fs'"
  shows "\<not> has_nul p" "reachable fs p" "\<not> is_dir fs (locate p)"
    "fs' = fs\<lparr>files := (files fs)(canonical (locate p) \<mapsto> c)\<rparr>"
  using assms by (auto simp: open_write_def split: if_splits)

lemma save_success:
  "save_scan_results lib fs dd sid r = (Inr (), fs') \<longleftrightarrow>
     (\<exists>fs1. makedirs fs (path_join dd ''scanned_results'') = Inr fs1 \<and>
        open_write fs1 (scan_results_path dd sid) (Text (json_dumps lib r)) = Inr fs')"
  by (auto simp: save_scan_results_def scan_results_path_def Let_def split: sum.splits)

lemma load_scan_results_path:
  "load_scan_results lib fs dd (PStr sid) =
     (if \<not> os_path_exists fs (scan_results_path dd sid)
      then Inl (FileNotFoundError (''Scan results not found for ID: '' @ sid))
      else bind_result (open_read fs (scan_results_path dd sid)) (json_load lib))"
  by (simp add: load_scan_results_def scan_results_path_def Let_def)

lemma load_after_save:
  assumes "json_loads lib (json_dumps lib r) = Inr (PDict r)"
    and "save_scan_results lib fs dd sid r = (Inr (), fs')"
  shows "load_scan_results lib fs' dd (PStr sid) = Inr (PDict r)"
proof -
  let ?p = "scan_results_path dd sid"
  from assms(2) obtain fs1 where
    w: "open_write fs1 ?p (Text (json_dumps lib r)) = Inr fs'"
    by (auto simp: save_success)
  note s = open_write_success [OF w]
  have f: "files fs' (canonical (locate ?p)) = Some (Text (json_dumps lib r))"
    and d: "dirs fs' = dirs fs1"
    by (simp_all add: s(4))
  have "is_dir fs' = is_dir fs1"
    by (simp add: is_dir_def d fun_eq_iff)
  then have r: "reachable fs' ?p"
    using s(2) by (simp add: reachable_def)
  have "os_path_exists fs' ?p"
    using s(1) r f by (simp add: os_path_exists_def is_file_def)
  moreover have "open_read fs' ?p = Inr (Text (json_dumps lib r))"
    using s(1) r f by (simp add: open_read_def)
  ultimately show ?thesis
    using assms(1) by (simp add: load_scan_results_path)
qed





lemma example_save_ok:
  "fst (save_scan_results example_lib empty_fs ''/data'' ''s1'' example_record) = Inr ()"
  by code_simp

lemma example_save:
  "save_scan_results example_lib empty_fs ''/data'' ''s1'' example_record = (Inr (), example_store)"
  using example_save_ok by (simp add: example_store_def prod_eq_iff)

lemma example_lib_round_trip:
  "json_loads example_lib (json_dumps example_lib example_record) = Inr (PDict example_record)"
  by (simp add: example_lib_def read_write_json [OF example_record_proper])




section \<open>Unknown report types\<close>

lemma load_template_unknown:
  assumes "report_type \<notin> {PStr ''regulatory_compliance'', PStr ''technical_operational'',
                          PStr ''business_focused''}"
  shows "load_template lib fs tdir report_type =
           Inl (if hashable report_type
                then ValueError (''Unknown report type: '' @ py_str lib report_type)
                else TypeError)"
  using assms
  by (cases report_type) (auto simp: load_template_def template_mapping_def)

text \<open>
  Claim C4 as stated does not hold: \<open>generate_report\<close> loads the scan record before it
  looks at the report type. With no record stored for the scan id, a request for the
  unknown type \<open>marketing_fluff\<close> fails with the error of the missing record, not
  with the error of the unknown type.
\<close>

theorem unknown_report_type_counterexample:
  "generate_report example_lib None ''/data'' ''/templates'' ''20260101_000000'' empty_fs
     (PStr ''s1'') (PStr ''marketing_fluff'') =
   (Inl (Failed ''Report generation failed: ''
          (FileNotFoundError ''Scan results not found for ID: s1'')), empty_fs)"
proof -
  have "\<not> os_path_exists empty_fs (scan_results_path ''/data'' ''s1'')"
    by (simp add: os_path_exists_def is_file_def empty_fs_def) code_simp
  then show ?thesis
    by (simp add: generate_report_def load_scan_results_path)
qed

text \<open>
  Claim C4, amended. The report type is any JSON value of the request. For every report
  type other than the three recognized strings, \<open>_load_template\<close> raises: TypeError
  when the value is unhashable (a list or an object), the ValueError "Unknown report type"
  otherwise. Report generation then fails and leaves the file system as it was (no
  directory made, no report written), and the failure it reports, wrapped in "Report
  generation failed", is the first of: the failure of loading the scan record;
  AttributeError when the file of the record does not hold an object; the failure of
  taking the length of the record's findings (TypeError when they are null or a number);
  the failure of \<open>_load_template\<close>.
\<close>

theorem unknown_report_type_fails_without_writes:
  assumes "report_type \<notin> {PStr ''regulatory_compliance'', PStr ''technical_operational'',
                          PStr ''business_focused''}"
  shows "load_template lib fs tdir report_type =
           Inl (if hashable report_type
                then ValueError (''Unknown report type: '' @ py_str lib report_type)
                else TypeError) \<and>
         generate_report lib model dd tdir ts fs sid report_type =
           (Inl (Failed ''Report generation failed: ''
                  (case load_scan_results lib fs dd sid of
                     Inl e \<Rightarrow> e
                   | Inr loaded \<Rightarrow>
                       (case as_dict loaded of
                          Inl e \<Rightarrow> e
                        | Inr scan_results \<Rightarrow>
                            (case py_len (dict_get_default scan_results ''findings'' (PList [])) of
                               Inl e \<Rightarrow> e
                             | Inr n \<Rightarrow>
                                 if hashable report_type
                                 then ValueError (''Unknown report type: '' @ py_str lib report_type)
                                 else TypeError)))),
            fs)"
proof -
  note t = load_template_unknown [OF assms, of lib fs tdir]
  show ?thesis
  proof (cases "load_scan_results lib fs dd sid")
    case (Inl e)
    with t show ?thesis by (simp add: generate_report_def)
  next
    case loaded: (Inr loaded)
    show ?thesis
    proof (cases "as_dict loaded")
      case (Inl e)
      with loaded t show ?thesis by (simp add: generate_report_def)
    next
      case (Inr scan_results)
      show ?thesis
      proof (cases "py_len (dict_get_default scan_results ''findings'' (PList []))")
        case (Inl e)
        with loaded Inr t show ?thesis by (simp add: generate_report_def)
      next
        case n: (Inr n)
        with loaded Inr t show ?thesis by (simp add: generate_report_def)
      qed
    qed
  qed
qed

lemma example_store_load:
  "load_scan_results example_lib example_store ''/data'' (PStr ''s1'') = Inr (PDict example_record)"
  by (rule load_after_save [OF example_lib_round_trip example_save])

theorem unknown_report_type_fails_without_writes_witness:
  "PStr ''marketing_fluff'' \<notin> {PStr ''regulatory_compliance'', PStr ''technical_operational'',
                                PStr ''business_focused''} \<and>
   load_scan_results example_lib example_store ''/data'' (PStr ''s1'') =
     Inr (PDict example_record) \<and>
   py_len (dict_get_default example_record ''findings'' (PList [])) = Inr 0 \<and>
   load_template example_lib example_store ''/templates'' (PStr ''marketing_fluff'') =
     Inl (ValueError ''Unknown report type: marketing_fluff'') \<and>
   generate_report example_lib None ''/data'' ''/templates'' ''20260101_000000'' example_store
       (PStr ''s1'') (PStr ''marketing_fluff'') =
     (Inl (Failed ''Report generation failed: ''
            (ValueError ''Unknown report type: marketing_fluff'')), example_store) \<and>
   generate_report example_lib None ''/data'' ''/templates'' ''20260101_000000'' example_store
       (PStr ''s1'') (PList []) =
     (Inl (Failed ''Report generation failed: '' TypeError), example_store)"
proof -
  have h: "PStr ''marketing_fluff'' \<notin> {PStr ''regulatory_compliance'',
      PStr ''technical_operational'', PStr ''business_focused''}"
    by simp
  have h': "PList [] \<notin> {PStr ''regulatory_compliance'',
      PStr ''technical_operational'', PStr ''business_focused''}"
    by simp
  have n: "py_len (dict_get_default example_record ''findings'' (PList [])) = Inr 0"
    by (simp add: example_record_def dict_get_default_def)
  from unknown_report_type_fails_without_writes [OF h, of example_lib example_store
      "''/templates''" None "''/data''" "''20260101_000000''" "PStr ''s1''"]
    example_store_load n
  have 1: "load_template example_lib example_store ''/templates'' (PStr ''marketing_fluff'') =
     Inl (ValueError ''Unknown report type: marketing_fluff'')"
    and 2: "generate_report example_lib None ''/data'' ''/templates'' ''20260101_000000''
       example_store (PStr ''s1'') (PStr ''marketing_fluff'') =
     (Inl (Failed ''Report generation failed: ''
            (ValueError ''Unknown report type: marketing_fluff'')), example_store)"
    by simp_all
  from unknown_report_type_fails_without_writes [OF h', of example_lib example_store
      "''/templates''" None "''/data''" "''20260101_000000''" "PStr ''s1''"]
    example_store_load n
  have 3: "generate_report example_lib None ''/data'' ''/templates'' ''20260101_000000''
       example_store (PStr ''s1'') (PList []) =
     (Inl (Failed ''Report generation failed: '' TypeError), example_store)"
    by simp
  from h example_store_load n 1 2 3 show ?thesis
    by (intro conjI)
qed

section \<open>Local composition and the fallback\<close>

lemma str_nat_0: "str_nat 0 = ''0''"
  by code_simp

text \<open>
  Claim C3 says that local composition derives the Executive Summary from the README of
  the scan record. \<open>analyze_codebase\<close> stores the repository information under
  \<open>repository_info\<close>, with the README text under \<open>readme\<close>;
  \<open>_local_generate\<close> reads \<open>repo_info\<close> and, inside it, \<open>found\<close>. For a record
  made by \<open>analyze_codebase\<close> from a repository with a README, the Executive Summary
  is the "no README" statement.
\<close>

theorem readme_of_scan_record_is_ignored:
  "fst (analyze_codebase example_lib empty_fs ''/data'' ''basic'' ''s1'' ''2026-01-01T00:00:00''
          (extract_repo_info (PStr ''Patient portal'') (PDict []) (PDict []) (PDict []))
          (Inr []) ''/repo'' (PStr ''health'')) = Inr example_record \<and>
   dict_get example_record ''repository_info'' =
     PDict [(''readme'', PStr ''Patient portal''), (''policies'', PDict []),
            (''dependencies'', PDict []), (''documentation'', PDict [])] \<and>
   executive_summary_parts (dict_get_default example_record ''repo_info'' (PDict [])) =
     Inr [blank_line @ ''## Executive Summary'',
          ''No README found; executive summary is derived from scan findings and templates.''] \<and>
   local_generate example_lib example_record ''T'' ''business_focused'' =
     Inr (join_strings blank_line
           ([''# Business Focused (Local Generated)'', [newline], ''T'',
             blank_line @ ''## Executive Summary'',
             ''No README found; executive summary is derived from scan findings and templates.'',
             blank_line @ ''## Scan Summary'',
             ''- Total findings: 0'',
             blank_line @ ''## Detailed Findings and Analysis'',
             ''No findings detected during automated analysis.''] @ closing_parts))"
proof (intro conjI)
  show "fst (analyze_codebase example_lib empty_fs ''/data'' ''basic'' ''s1'' ''2026-01-01T00:00:00''
          (extract_repo_info (PStr ''Patient portal'') (PDict []) (PDict []) (PDict []))
          (Inr []) ''/repo'' (PStr ''health'')) = Inr example_record"
  proof -
    have "enrich_findings example_lib empty_fs ''/data'' [] = Inr []"
      by (rule enrich_findings_absent [OF example_kb_absent])
    then have "bind_result (Inr [])
         (\<lambda>code_findings.
            bind_result (enrich_findings example_lib empty_fs ''/data'' code_findings)
              (\<lambda>enriched_findings.
                 bind_result (generate_summary enriched_findings)
                   (\<lambda>summary.
                      Inr [(''scan_id'', PStr ''s1''),
                           (''timestamp'', PStr ''2026-01-01T00:00:00''),
                           (''repository_path'', PStr ''/repo''),
                           (''sector_hint'', PStr ''health''),
                           (''plan_used'', PStr ''basic''),
                           (''repository_info'',
                            PDict (extract_repo_info (PStr ''Patient portal'') (PDict [])
                                     (PDict []) (PDict []))),
                           (''findings'', PList (map PDict enriched_findings)),
                           (''summary'', summary_json summary)]))) =
       Inr example_record"
      by (simp add: generate_summary_def summary_json_def extract_repo_info_def
            example_record_def)
    then show ?thesis
      unfolding analyze_codebase_def by (simp add: example_save)
  qed
  show "dict_get example_record ''repository_info'' =
     PDict [(''readme'', PStr ''Patient portal''), (''policies'', PDict []),
            (''dependencies'', PDict []), (''documentation'', PDict [])]"
    by (simp add: example_record_def dict_get_def dict_get_default_def)
  show exec: "executive_summary_parts (dict_get_default example_record ''repo_info'' (PDict [])) =
     Inr [blank_line @ ''## Executive Summary'',
          ''No README found; executive summary is derived from scan findings and templates.'']"
    by (simp add: example_record_def dict_get_default_def executive_summary_parts_def)
  have title: "py_title (replace_underscores ''business_focused'') = ''Business Focused''"
    by code_simp
  have summ: "scan_summary_parts example_lib example_record =
      Inr [blank_line @ ''## Scan Summary'', ''- Total findings: 0'']"
    by (simp add: scan_summary_parts_def example_record_def dict_get_default_def str_int_def
          str_nat_0)
  have det: "detailed_findings_parts example_lib example_record =
      Inr [blank_line @ ''## Detailed Findings and Analysis'',
           ''No findings detected during automated analysis.'']"
    by (simp add: detailed_findings_parts_def example_record_def dict_get_default_def)
  have gem: "gemini_analysis_parts example_record = Inr []"
    by (simp add: gemini_analysis_parts_def example_record_def dict_get_default_def)
  have pol: "policy_parts (dict_get_default example_record ''repo_info'' (PDict [])) = Inr []"
    by (simp add: policy_parts_def example_record_def dict_get_default_def dict_get_def)
  show "local_generate example_lib example_record ''T'' ''business_focused'' =
     Inr (join_strings blank_line
           ([''# Business Focused (Local Generated)'', [newline], ''T'',
             blank_line @ ''## Executive Summary'',
             ''No README found; executive summary is derived from scan findings and templates.'',
             blank_line @ ''## Scan Summary'',
             ''- Total findings: 0'',
             blank_line @ ''## Detailed Findings and Analysis'',
             ''No findings detected during automated analysis.''] @ closing_parts))"
    unfolding local_generate_def Let_def exec summ det gem pol title
    by (simp add: py_join_def closing_parts_def)
qed

lemma executive_summary_own_layout:
  "executive_summary_parts (PDict [(''found'', PDict [(''README.md'', PDict [(''content'', PStr text)])])]) =
     (if text = [] then
        Inr [blank_line @ ''## Executive Summary'',
             ''No README found; executive summary is derived from scan findings and templates.'']
      else
        Inr [blank_line @ ''## Executive Summary'', ''Context from repository README:'',
             take 1200 (py_strip text) @ (if length text > 1200 then ''...'' else [])])"
  by (simp add: executive_summary_parts_def dict_get_default_def dict_get_def startswith_def)

lemma str_items_texts: "str_items (map PStr xs) = Inr xs"
  by (induction xs) simp_all

lemma py_join_texts: "py_join sep (map PStr xs) = Inr (join_strings sep xs)"
  by (simp add: py_join_def str_items_texts)

lemma str_items_all_text: "list_all is_text l \<Longrightarrow> \<exists>ss. str_items l = Inr ss"
proof (induction l)
  case Nil
  then show ?case by simp
next
  case (Cons v l)
  then obtain ss where "str_items l = Inr ss" by auto
  with Cons.prems show ?case by (cases v) simp_all
qed

lemma py_join_iterable_ok:
  "optional_names v \<Longrightarrow> truthy v \<Longrightarrow> \<exists>s. py_join_iterable sep v = Inr s"
proof (cases v)
  case (PList l)
  assume "optional_names v" "truthy v"
  with PList have "list_all is_text l" by (simp add: optional_names_def)
  from str_items_all_text [OF this] obtain ss where "str_items l = Inr ss" by blast
  with PList show ?thesis by (simp add: py_join_def)
qed (simp_all add: optional_names_def)

lemma finding_parts_ok:
  assumes "optional_text (dict_get d ''context_snippet'')" "optional_names (dict_get d ''compliance'')"
  shows "\<exists>parts. finding_parts lib idx d = Inr parts"
proof -
  let ?snippet = "py_or (dict_get d ''context_snippet'') (PStr [])"
  let ?compliance = "py_or (dict_get d ''compliance'') (PList [])"
  have 1: "\<exists>e. (if truthy ?snippet
            then bind_result (as_str ?snippet) (\<lambda>s.
                   Inr [newline # ''**Evidence (code snippet):**'', ''```'',
                        take 800 (py_strip s), ''```''])
            else Inr []) = Inr e"
    using assms(1)
    by (cases "dict_get d ''context_snippet''") (auto simp: optional_text_def py_or_def)
  have 2: "\<exists>m. (if truthy ?compliance
            then bind_result (py_join_iterable '', '' ?compliance) (\<lambda>joined.
                   Inr [''- Compliance mappings: '' @ joined])
            else Inr []) = Inr m"
  proof (cases "truthy (dict_get d ''compliance'')")
    case True
    with py_join_iterable_ok [OF assms(2) True, of "'', ''"] show ?thesis
      by (auto simp: py_or_def)
  next
    case False
    then show ?thesis by (simp add: py_or_def)
  qed
  from 1 2 show ?thesis
    unfolding finding_parts_def Let_def by (elim exE) simp
qed

lemma findings_loop_ok:
  "list_all finding_renderable l \<Longrightarrow> \<exists>parts. findings_loop lib idx l = Inr parts"
proof (induction l arbitrary: idx)
  case Nil
  then show ?case by simp
next
  case (Cons f l)
  then obtain d where d: "f = PDict d" "optional_text (dict_get d ''context_snippet'')"
      "optional_names (dict_get d ''compliance'')"
    by (cases f) (auto simp: finding_renderable_def)
  from finding_parts_ok [OF d(2,3)] obtain parts where "finding_parts lib idx d = Inr parts"
    by blast
  moreover from Cons obtain more where "findings_loop lib (Suc idx) l = Inr more"
    by fastforce
  ultimately show ?case by (simp add: d(1))
qed

lemma py_join_all_text:
  assumes "list_all is_text ps"
  shows "\<exists>s. py_join sep ps = Inr s"
proof -
  from str_items_all_text [OF assms] obtain ss where "str_items ps = Inr ss" by blast
  then show ?thesis by (simp add: py_join_def)
qed

lemma local_generate_stored_record:
  assumes "stored_record r"
  shows "\<exists>text. local_generate lib r template report_type = Inr text"
proof -
  from assms have ri: "dict_get_default r ''repo_info'' (PDict []) = PDict []"
    and ga: "dict_get_default r ''gemini_analysis'' (PDict []) = PDict []"
    by (simp_all add: stored_record_def dict_get_default_def)
  have exec: "\<exists>p. executive_summary_parts (PDict []) = Inr p"
    by (simp add: executive_summary_parts_def dict_get_default_def)
  have pol: "policy_parts (PDict []) = Inr []"
    by (simp add: policy_parts_def dict_get_def dict_get_default_def)
  have gem: "gemini_analysis_parts r = Inr []"
    by (simp add: gemini_analysis_parts_def ga)
  from assms obtain summary where summary: "map_of r ''summary'' = Some (PDict summary)"
    and sev: "case map_of summary ''severity_breakdown'' of
                Some (PDict _) \<Rightarrow> True | None \<Rightarrow> True | _ \<Rightarrow> False"
    unfolding stored_record_def
    by (cases "map_of r ''summary''"; cases "the (map_of r ''summary'')") simp_all
  from sev obtain severity where
    severity: "as_dict (dict_get_default summary ''severity_breakdown'' (PDict [])) = Inr severity"
    unfolding dict_get_default_def
    by (cases "map_of summary ''severity_breakdown''";
        cases "the (map_of summary ''severity_breakdown'')") simp_all
  have summ: "\<exists>p. scan_summary_parts lib r = Inr p"
    unfolding scan_summary_parts_def
    by (simp add: dict_get_default_def summary severity [unfolded dict_get_default_def])
  from assms obtain l where l: "map_of r ''findings'' = Some (PList l)" "list_all finding_renderable l"
    unfolding stored_record_def
    by (cases "map_of r ''findings''"; cases "the (map_of r ''findings'')") simp_all
  obtain parts where parts: "findings_loop lib 1 l = Inr parts"
    using findings_loop_ok [OF l(2), of lib 1] by blast
  have det: "\<exists>p. detailed_findings_parts lib r = Inr p"
    unfolding detailed_findings_parts_def Let_def
    using parts by (simp add: dict_get_default_def l(1))
  from exec summ det obtain p1 p2 p3 where
    "executive_summary_parts (PDict []) = Inr p1" "scan_summary_parts lib r = Inr p2"
    "detailed_findings_parts lib r = Inr p3"
    by blast
  then show ?thesis
    unfolding local_generate_def Let_def ri
    by (simp add: gem pol) (rule py_join_all_text, auto simp: list_all_iff)
qed

lemma analyze_codebase_stored_record:
  assumes "fst (analyze_codebase lib fs dd plan sid ts repo_info analysis repo_path hint) = Inr r"
  shows "\<exists>enriched. map_of r ''findings'' = Some (PList (map PDict enriched)) \<and>
           (list_all (\<lambda>f. finding_renderable (PDict f)) enriched \<longrightarrow> stored_record r)"
proof -
  from assms obtain enriched summary where
    r: "r = [(''scan_id'', PStr sid),
             (''timestamp'', PStr ts),
             (''repository_path'', PStr repo_path),
             (''sector_hint'', hint),
             (''plan_used'', PStr plan),
             (''repository_info'', PDict repo_info),
             (''findings'', PList (map PDict enriched)),
             (''summary'', summary_json summary)]"
    unfolding analyze_codebase_def
    by (cases analysis; cases "enrich_findings lib fs dd (projr analysis)";
        cases "generate_summary (projr (enrich_findings lib fs dd (projr analysis)))")
      (auto split: prod.splits sum.splits)
  have 1: "map_of r ''findings'' = Some (PList (map PDict enriched))"
    by (simp add: r)
  have 2: "stored_record r" if "list_all (\<lambda>f. finding_renderable (PDict f)) enriched"
    using that by (simp add: r stored_record_def summary_json_def list_all_iff)
  from 1 2 show ?thesis by blast
qed

text \<open>
  Claim C8. For every scan record and template, when the external model is absent or its
  call raises, \<open>_generate_with_gemini\<close> returns what the local generator returns for
  the same record, template and report type; and for every record of the shape that
  \<open>analyze_codebase\<close> stores (with findings that can be rendered) that result is a
  report text, not a failure.
\<close>

theorem generator_failure_falls_back_to_local:
  assumes "model = None \<or> (\<exists>g e. model = Some g \<and> g (prompt lib scan_results template report_type) = Inl e)"
  shows "generate_with_gemini lib model scan_results template report_type =
           local_generate lib scan_results template report_type \<and>
         (stored_record scan_results \<longrightarrow>
            (\<exists>text. generate_with_gemini lib model scan_results template report_type = Inr text))"
proof -
  have eq: "generate_with_gemini lib model scan_results template report_type =
           local_generate lib scan_results template report_type"
    using assms by (auto simp: generate_with_gemini_def)
  with local_generate_stored_record [of scan_results lib template report_type]
  show ?thesis by simp
qed

lemma example_record_stored: "stored_record example_record"
  by (simp add: stored_record_def example_record_def)

theorem generator_failure_falls_back_to_local_witness:
  "failing_model (prompt example_lib example_record ''T'' ''business_focused'') =
     Inl (ExternalError ''quota exceeded'') \<and>
   stored_record example_record \<and>
   generate_with_gemini example_lib (Some failing_model) example_record ''T'' ''business_focused'' =
     local_generate example_lib example_record ''T'' ''business_focused'' \<and>
   (\<exists>text. generate_with_gemini example_lib (Some failing_model) example_record ''T''
             ''business_focused'' = Inr text)"
proof -
  have f: "failing_model (prompt example_lib example_record ''T'' ''business_focused'') =
     Inl (ExternalError ''quota exceeded'')"
    by (simp add: failing_model_def)
  then have h: "Some failing_model = None \<or>
      (\<exists>g e. Some failing_model = Some g \<and>
         g (prompt example_lib example_record ''T'' ''business_focused'') = Inl e)"
    by blast
  note t = generator_failure_falls_back_to_local [OF h]
  from t have eq: "generate_with_gemini example_lib (Some failing_model) example_record ''T''
      ''business_focused'' = local_generate example_lib example_record ''T'' ''business_focused''"
    by (rule conjunct1)
  from t example_record_stored
  have ok: "\<exists>text. generate_with_gemini example_lib (Some failing_model) example_record ''T''
             ''business_focused'' = Inr text"
    by blast
  from f example_record_stored eq ok show ?thesis
    by (intro conjI)
qed

end
